theory Spec2Isabelle
  imports Complex_Main "HOL-Library.AList" "HOL-Library.Multiset"
    "HOL-Library.Char_ord" "HOL-Library.List_Lexorder"
begin

section \<open>Exceptions\<close>

text \<open>
  The Python exceptions that the modelled code can raise. A function that can raise
  returns a sum, \<open>Inl\<close> carrying the exception.
\<close>

datatype error = KeyError string | IndexError | ZeroDivisionError

section \<open>Modal classifier and coherence\<close>

text \<open>
  Python floats are modelled as reals; the decimal literals of the source are the
  corresponding fractions (\<open>0.95\<close> is \<open>95/100\<close>). Every comparison below is between an
  input and a literal, so a boundary input written with the same literal compares equal
  in both readings.

  \<open>LambdaEngine.trinity_to_modal\<close> (lambda_engine/\<Lambda>_onto_calculus_engine.py) computes a
  coherence value inline and then walks a chain of strict threshold tests. The inline
  computation is the function \<open>coherence\<close> here.
\<close>

definition coherence :: "real \<times> real \<times> real \<Rightarrow> real" where
  "coherence trinity_vector =
     (case trinity_vector of (existence, goodness, truth) \<Rightarrow>
        let ideal_g = existence * truth;
            c = (if ideal_g > 0 then goodness / ideal_g else 0)
        in if goodness \<ge> ideal_g then 1 else c)"

definition trinity_to_modal :: "real \<times> real \<times> real \<Rightarrow> string" where
  "trinity_to_modal trinity_vector =
     (case trinity_vector of (existence, goodness, truth) \<Rightarrow>
        if truth > 95/100 \<and> existence > 9/10 \<and> coherence trinity_vector > 9/10
          then ''necessary''
        else if truth > 5/10 \<and> existence > 5/10 then ''actual''
        else if truth > 5/100 \<and> existence > 5/100 then ''possible''
        else ''impossible'')"

text \<open>
  The classifier and the coherence scalar as the specification words them: non-strict
  tests in the first rule, and coherence \<open>min(1, g/(e\<cdot>t))\<close> for \<open>e\<cdot>t > 0\<close>, else 0.
\<close>

definition coherence_spec :: "real \<times> real \<times> real \<Rightarrow> real" where
  "coherence_spec v =
     (case v of (e, g, t) \<Rightarrow> if e * t > 0 then max 0 (min 1 (g / (e * t))) else 0)"

definition modal_spec :: "real \<times> real \<times> real \<Rightarrow> string" where
  "modal_spec v =
     (case v of (e, g, t) \<Rightarrow>
        if t \<ge> 95/100 \<and> e \<ge> 9/10 \<and> coherence_spec v \<ge> 9/10 then ''necessary''
        else if t > 5/10 \<and> e > 5/10 then ''actual''
        else if t > 5/100 \<and> e > 5/100 then ''possible''
        else ''impossible'')"

section \<open>Escape-time positioner\<close>

text \<open>
  \<open>FractalMapping.map_to_complex\<close> and \<open>FractalMapping.compute_iterations\<close>
  (lambda_engine/\<Lambda>_onto_calculus_engine.py). The \<open>for i in range(max_iter)\<close> loop is the
  recursive function \<open>for_loop\<close>, with the loop index and the current \<open>z\<close> as arguments;
  \<open>max_iter\<close> is a Python integer, and a non-positive one gives an empty range. The escape
  threshold is the literal \<open>2.0\<close> of the source; \<open>abs\<close> of a complex number is \<open>cmod\<close>.
\<close>

definition map_to_complex :: "real \<times> real \<times> real \<Rightarrow> complex" where
  "map_to_complex trinity_vector =
     (case trinity_vector of (existence, goodness, truth) \<Rightarrow>
        Complex (existence * truth) goodness)"

function for_loop :: "complex \<Rightarrow> int \<Rightarrow> int \<Rightarrow> complex \<Rightarrow> int \<times> bool" where
  "for_loop c max_iter i z =
     (if i < max_iter then
        (let z' = z * z + c in
           if cmod z' > 2 then (i, False) else for_loop c max_iter (i + 1) z')
      else (max_iter, True))"
  by pat_completeness auto
termination
  by (relation "measure (\<lambda>(c, max_iter, i, z). nat (max_iter - i))") auto

declare for_loop.simps [simp del]

definition compute_iterations :: "complex \<Rightarrow> int \<Rightarrow> int \<times> bool" where
  "compute_iterations c max_iter = for_loop c max_iter 0 0"

text \<open>
  The procedure as the specification words it: while \<open>n < max_iter\<close> and
  \<open>|z| \<le> escape_radius\<close>, update \<open>z\<close> and increment \<open>n\<close>; emit \<open>n\<close> and \<open>n = max_iter\<close>.
\<close>

function escape_spec_loop :: "complex \<Rightarrow> real \<Rightarrow> int \<Rightarrow> int \<Rightarrow> complex \<Rightarrow> int" where
  "escape_spec_loop c escape_radius max_iter n z =
     (if n < max_iter \<and> cmod z \<le> escape_radius
      then escape_spec_loop c escape_radius max_iter (n + 1) (z * z + c)
      else n)"
  by pat_completeness auto
termination
  by (relation "measure (\<lambda>(c, r, max_iter, n, z). nat (max_iter - n))") auto

declare escape_spec_loop.simps [simp del]

definition escape_spec :: "complex \<Rightarrow> int \<Rightarrow> real \<Rightarrow> int \<times> bool" where
  "escape_spec c max_iter escape_radius =
     (let n = escape_spec_loop c escape_radius max_iter 0 0 in (n, n = max_iter))"

text \<open>The orbit of 0 under \<open>z \<mapsto> z\<^sup>2 + c\<close>: \<open>orbit c k\<close> is \<open>z\<close> after \<open>k\<close> updates.\<close>

primrec orbit :: "complex \<Rightarrow> nat \<Rightarrow> complex" where
  "orbit c 0 = 0"
| "orbit c (Suc n) = orbit c n * orbit c n + c"

subsection \<open>The clamped trinity vector class\<close>

text \<open>
  \<open>TrinityVector\<close> (fractal orbital predictor/trinity_vector.py): the constructor clamps
  each component, and \<open>calculate_modal_status\<close> has its own coherence quotient and its own
  thresholds, on truth alone.
\<close>

record TrinityVector =
  existence :: real
  goodness :: real
  truth :: real

definition mk_TrinityVector :: "real \<Rightarrow> real \<Rightarrow> real \<Rightarrow> TrinityVector" where
  "mk_TrinityVector e g t =
     \<lparr> existence = max 0 (min 1 e), goodness = max 0 (min 1 g), truth = max 0 (min 1 t) \<rparr>"

definition calculate_modal_status :: "TrinityVector \<Rightarrow> string \<times> real" where
  "calculate_modal_status self =
     (let coh = goodness self / (existence self * truth self + 1/1000000) in
        if truth self > 9/10 \<and> coh > 9/10 then (''necessary'', coh)
        else if truth self > 5/10 then (''actual'', coh)
        else if truth self > 1/10 then (''possible'', coh)
        else (''impossible'', coh))"

section \<open>Typed expression kernel\<close>

text \<open>
  lambda_engine/logos_lambda_core.py. \<open>OntologicalType\<close> is the enum of the source. A
  \<open>FunctionType\<close> object holds a domain and a codomain; the constructor annotates the
  domain as an \<open>OntologicalType\<close>, but nothing enforces it and \<open>check_type\<close> itself tests
  \<open>isinstance(func_type.domain, OntologicalType)\<close>, so a type here is either an
  ontological type or a function type between arbitrary types. The member \<open>PROP\<close> of the
  enum is written \<open>Prop\<close>, its value in the source.
\<close>

datatype OntologicalType = EXISTENCE | GOODNESS | TRUTH | Prop

datatype ty = Onto OntologicalType | FunctionType (domain: ty) (codomain: ty)

text \<open>
  The expression classes. \<open>LogosExprBase\<close> is a direct instance of the base class
  \<open>LogosExpr\<close> (what \<open>from_dict\<close> returns for an unknown tag); a \<open>Constant\<close> carries an
  optional defining expression.
\<close>

datatype LogosExpr =
    LogosExprBase
  | Variable string OntologicalType
  | Value string OntologicalType
  | Constant string ty "LogosExpr option"
  | Abstraction string OntologicalType LogosExpr
  | Application LogosExpr LogosExpr
  | SufficientReason OntologicalType OntologicalType int

subsection \<open>Built-in constants\<close>

definition create_logical_connectives :: "(string \<times> LogosExpr) list" where
  "create_logical_connectives =
     (let prop_type = Onto Prop;
          prop_to_prop = FunctionType prop_type prop_type;
          prop_to_prop_to_prop = FunctionType prop_type (FunctionType prop_type prop_type)
      in [(''NOT'', Constant ''NOT'' prop_to_prop None),
          (''AND'', Constant ''AND'' prop_to_prop_to_prop None),
          (''OR'', Constant ''OR'' prop_to_prop_to_prop None),
          (''IMPLIES'', Constant ''IMPLIES'' prop_to_prop_to_prop None),
          (''EQ'', Constant ''EQ'' prop_to_prop_to_prop None)])"

definition create_core_axioms :: "(string \<times> LogosExpr) list" where
  "create_core_axioms =
     (let prop_type = Onto Prop;
          ei_val = Value ''ei'' EXISTENCE;
          og_val = Value ''og'' GOODNESS;
          at_val = Value ''at'' TRUTH;
          id_val = Value ''ID'' Prop;
          nc_val = Value ''NC'' Prop;
          em_val = Value ''EM'' Prop;
          eq_op = Constant ''EQ''
                    (FunctionType prop_type (FunctionType prop_type prop_type)) None;
          aoi_expr = Application (Application eq_op ei_val) id_val;
          aec_expr = Application (Application eq_op og_val) nc_val;
          aef_expr = Application (Application eq_op at_val) em_val
      in [(''AxiomAOI'', Constant ''AxiomAOI'' prop_type (Some aoi_expr)),
          (''AxiomAEC'', Constant ''AxiomAEC'' prop_type (Some aec_expr)),
          (''AxiomAEF'', Constant ''AxiomAEF'' prop_type (Some aef_expr))])"


subsection \<open>Type checker\<close>

text \<open>
  \<open>TypeChecker.env\<close> is a dictionary from names to types; \<open>_initialize_environment\<close>
  fills it with the types of the connectives and axioms and the two sufficient-reason
  operators.
\<close>

type_synonym type_env = "string \<rightharpoonup> ty"


text \<open>
  \<open>TypeChecker.check_type\<close> reads and writes \<open>self.env\<close>, so the model takes the
  environment and returns it with the result: \<open>Inr (Some \<tau>, env')\<close> for a type,
  \<open>Inr (None, env')\<close> for the \<open>None\<close> the source returns on a typing error, and \<open>Inl\<close> for
  an exception. The only statement that can raise is \<open>del self.env[expr.var_name]\<close>, a
  \<open>KeyError\<close> when the name is absent. Types are never falsy, so \<open>if old_binding:\<close> and
  \<open>if body_type:\<close> test for \<open>None\<close>. The \<open>print\<close> calls are dropped, and the depth of
  the interpreter's call stack is not modelled.
\<close>

definition del_env :: "type_env \<Rightarrow> string \<Rightarrow> error + type_env" where
  "del_env env name = (if name \<in> dom env then Inr (env(name := None)) else Inl (KeyError name))"

fun check_type :: "LogosExpr \<Rightarrow> type_env \<Rightarrow> error + (ty option \<times> type_env)" where
  "check_type (Variable name ont_type) env =
     Inr (Some (case env name of Some \<tau> \<Rightarrow> \<tau> | None \<Rightarrow> Onto ont_type), env)"
| "check_type (Value v ont_type) env = Inr (Some (Onto ont_type), env)"
| "check_type (Constant name t v) env = Inr (Some t, env)"
| "check_type (Abstraction var_name var_type body) env =
     (let old_binding = env var_name;
          env1 = env(var_name \<mapsto> Onto var_type)
      in case check_type body env1 of
           Inl e \<Rightarrow> Inl e
         | Inr (body_type, env2) \<Rightarrow>
             (case (case old_binding of
                      Some b \<Rightarrow> Inr (env2(var_name \<mapsto> b))
                    | None \<Rightarrow> del_env env2 var_name) of
                Inl e \<Rightarrow> Inl e
              | Inr env3 \<Rightarrow>
                  (case body_type of
                     Some bt \<Rightarrow> Inr (Some (FunctionType (Onto var_type) bt), env3)
                   | None \<Rightarrow> Inr (None, env3))))"
| "check_type (Application func arg) env =
     (case check_type func env of
        Inl e \<Rightarrow> Inl e
      | Inr (func_type, env1) \<Rightarrow>
          (case func_type of
             Some (FunctionType dom_type cod_type) \<Rightarrow>
               (case check_type arg env1 of
                  Inl e \<Rightarrow> Inl e
                | Inr (arg_type, env2) \<Rightarrow>
                    if is_Onto dom_type \<and> Some dom_type \<noteq> arg_type
                    then Inr (None, env2)
                    else Inr (Some cod_type, env2))
           | _ \<Rightarrow> Inr (None, env1)))"
| "check_type (SufficientReason source_type target_type v) env =
     (if source_type = EXISTENCE \<and> target_type = GOODNESS then
        (if v = 3 then Inr (Some (FunctionType (Onto source_type) (Onto target_type)), env)
         else Inr (None, env))
      else if source_type = GOODNESS \<and> target_type = TRUTH then
        (if v = 2 then Inr (Some (FunctionType (Onto source_type) (Onto target_type)), env)
         else Inr (None, env))
      else Inr (None, env))"
| "check_type LogosExprBase env = Inr (None, env)"

text \<open>The type (or \<open>None\<close>) that \<open>check_type\<close> returns for an expression.\<close>

definition type_of :: "type_env \<Rightarrow> LogosExpr \<Rightarrow> ty option" where
  "type_of env expr = (case check_type expr env of Inr (t, env') \<Rightarrow> t | Inl e \<Rightarrow> None)"

subsection \<open>Evaluator\<close>

text \<open>
  \<open>Evaluator.env\<close> holds the connective and axiom constants. \<open>Evaluator.substitute\<close> is
  structural. \<open>Evaluator.evaluate\<close> recurses on the result of a substitution, with no
  bound on the number of steps, so it is a partial function: \<open>None\<close> stands for an
  evaluation that does not return a result (the recursion goes on until the interpreter
  aborts it with its own \<open>RecursionError\<close>).
\<close>

definition Evaluator_initial_env :: "string \<rightharpoonup> LogosExpr" where
  "Evaluator_initial_env = map_of (create_logical_connectives @ create_core_axioms)"

fun substitute :: "LogosExpr \<Rightarrow> string \<Rightarrow> LogosExpr \<Rightarrow> LogosExpr" where
  "substitute (Variable name ont_type) var_name v =
     (if name = var_name then v else Variable name ont_type)"
| "substitute (Abstraction bound_name var_type body) var_name v =
     (if bound_name = var_name then Abstraction bound_name var_type body
      else Abstraction bound_name var_type (substitute body var_name v))"
| "substitute (Application func arg) var_name v =
     Application (substitute func var_name v) (substitute arg var_name v)"
| "substitute expr var_name v = expr"

text \<open>
  The tail of the application case, once the function is known not to be an abstraction:
  \<open>NOT\<close> applied to one of the two truth values reduces, everything else is returned as
  an application.
\<close>

fun apply_constant :: "LogosExpr \<Rightarrow> LogosExpr \<Rightarrow> LogosExpr" where
  "apply_constant (Constant name t d) (Value v ont_type) =
     (if name = ''NOT'' \<and> v = ''TrueProp'' then Value ''FalseProp'' Prop
      else if name = ''NOT'' \<and> v = ''FalseProp'' then Value ''TrueProp'' Prop
      else Application (Constant name t d) (Value v ont_type))"
| "apply_constant func arg = Application func arg"

partial_function (option) evaluate :: "(string \<rightharpoonup> LogosExpr) \<Rightarrow> LogosExpr \<Rightarrow> LogosExpr option"
where
  "evaluate env expr =
     (case expr of
        Variable name ont_type \<Rightarrow> Some (case env name of Some v \<Rightarrow> v | None \<Rightarrow> expr)
      | Abstraction var_name var_type body \<Rightarrow>
          Option.bind (evaluate env body)
            (\<lambda>new_body. Some (Abstraction var_name var_type new_body))
      | Application func0 arg0 \<Rightarrow>
          Option.bind (evaluate env func0) (\<lambda>func.
          Option.bind (evaluate env arg0) (\<lambda>arg.
            case func of
              Abstraction var_name var_type body \<Rightarrow>
                evaluate env (substitute body var_name arg)
            | _ \<Rightarrow> Some (apply_constant func arg)))
      | _ \<Rightarrow> Some expr)"

subsection \<open>Free and bound names\<close>

text \<open>
  The names occurring free in an expression and the names bound by its abstractions. As
  in the source, a constant is atomic: its defining expression is not looked into.
\<close>

fun free_vars :: "LogosExpr \<Rightarrow> string set" where
  "free_vars (Variable name ont_type) = {name}"
| "free_vars (Abstraction var_name var_type body) = free_vars body - {var_name}"
| "free_vars (Application func arg) = free_vars func \<union> free_vars arg"
| "free_vars expr = {}"

fun bound_names :: "LogosExpr \<Rightarrow> string set" where
  "bound_names (Abstraction var_name var_type body) = insert var_name (bound_names body)"
| "bound_names (Application func arg) = bound_names func \<union> bound_names arg"
| "bound_names expr = {}"

text \<open>The self-application \<open>\<lambda>x. x x\<close> and the term \<open>(\<lambda>x. x x) (\<lambda>x. x x)\<close>.\<close>

definition delta_term :: LogosExpr where
  "delta_term =
     Abstraction ''x'' TRUTH (Application (Variable ''x'' TRUTH) (Variable ''x'' TRUTH))"

definition omega_term :: LogosExpr where
  "omega_term = Application delta_term delta_term"

subsection \<open>Enhanced evaluator\<close>

text \<open>
  \<open>EnhancedEvaluator\<close> extends \<open>Evaluator\<close>. Its \<open>evaluate\<close> can return objects of the helper
  class \<open>_PartialApplication\<close>, which are not expressions, and it compares arguments with
  its own two truth-value objects \<open>self.true_prop\<close> and \<open>self.false_prop\<close> by \<open>==\<close>, which
  for these classes is object identity. The objects it works on are therefore a type of
  their own: \<open>ETrueProp\<close> and \<open>EFalseProp\<close> are the evaluator's two \<open>Value\<close> objects, \<open>EValue\<close>
  is any other \<open>Value\<close> object (also one that carries the same symbol), and
  \<open>EPartialApplication\<close> holds the connective whose evaluation method it was created
  with and the first argument.
\<close>

datatype connective = AND | OR | IMPLIES | EQ

datatype EnhancedExpr =
    EBase
  | EVariable string OntologicalType
  | EValue string OntologicalType
  | ETrueProp
  | EFalseProp
  | EConstant string ty "EnhancedExpr option"
  | EAbstraction string OntologicalType EnhancedExpr
  | EApplication EnhancedExpr EnhancedExpr
  | ESufficientReason OntologicalType OntologicalType int
  | EPartialApplication connective EnhancedExpr

text \<open>
  The connective constants \<open>self.env["NOT"]\<close> and so on, as \<open>create_logical_connectives\<close>
  makes them, and the environment after \<open>__init__\<close>: the constants of the base class and
  the two truth values.
\<close>

definition connective_constant :: "string \<Rightarrow> EnhancedExpr" where
  "connective_constant name =
     (if name = ''NOT'' then EConstant name (FunctionType (Onto Prop) (Onto Prop)) None
      else EConstant name
             (FunctionType (Onto Prop) (FunctionType (Onto Prop) (Onto Prop))) None)"

definition enhanced_axiom :: "string \<Rightarrow> string \<Rightarrow> OntologicalType \<Rightarrow> string \<Rightarrow> EnhancedExpr" where
  "enhanced_axiom name lhs lhs_type rhs =
     EConstant name (Onto Prop)
       (Some (EApplication (EApplication (connective_constant ''EQ'') (EValue lhs lhs_type))
                (EValue rhs Prop)))"

definition EnhancedEvaluator_env :: "string \<rightharpoonup> EnhancedExpr" where
  "EnhancedEvaluator_env =
     map_of [(''NOT'', connective_constant ''NOT''),
             (''AND'', connective_constant ''AND''),
             (''OR'', connective_constant ''OR''),
             (''IMPLIES'', connective_constant ''IMPLIES''),
             (''EQ'', connective_constant ''EQ''),
             (''AxiomAOI'', enhanced_axiom ''AxiomAOI'' ''ei'' EXISTENCE ''ID''),
             (''AxiomAEC'', enhanced_axiom ''AxiomAEC'' ''og'' GOODNESS ''NC''),
             (''AxiomAEF'', enhanced_axiom ''AxiomAEF'' ''at'' TRUTH ''EM''),
             (''TrueProp'', ETrueProp),
             (''FalseProp'', EFalseProp)]"

text \<open>The inherited \<open>substitute\<close> on these objects.\<close>

fun enhanced_substitute :: "EnhancedExpr \<Rightarrow> string \<Rightarrow> EnhancedExpr \<Rightarrow> EnhancedExpr" where
  "enhanced_substitute (EVariable name ont_type) var_name v =
     (if name = var_name then v else EVariable name ont_type)"
| "enhanced_substitute (EAbstraction bound_name var_type body) var_name v =
     (if bound_name = var_name then EAbstraction bound_name var_type body
      else EAbstraction bound_name var_type (enhanced_substitute body var_name v))"
| "enhanced_substitute (EApplication func arg) var_name v =
     EApplication (enhanced_substitute func var_name v) (enhanced_substitute arg var_name v)"
| "enhanced_substitute expr var_name v = expr"

text \<open>The truth tables \<open>_evaluate_not\<close>, \<open>_evaluate_and\<close>, \<open>_evaluate_or\<close>, \<open>_evaluate_implies\<close>, \<open>_evaluate_eq\<close>.\<close>

definition evaluate_not :: "EnhancedExpr \<Rightarrow> EnhancedExpr" where
  "evaluate_not arg =
     (if arg = ETrueProp then EFalseProp
      else if arg = EFalseProp then ETrueProp
      else EApplication (connective_constant ''NOT'') arg)"

definition evaluate_and :: "EnhancedExpr \<Rightarrow> EnhancedExpr \<Rightarrow> EnhancedExpr" where
  "evaluate_and arg1 arg2 =
     (if arg1 = EFalseProp \<or> arg2 = EFalseProp then EFalseProp
      else if arg1 = ETrueProp \<and> arg2 = ETrueProp then ETrueProp
      else EApplication (EApplication (connective_constant ''AND'') arg1) arg2)"

definition evaluate_or :: "EnhancedExpr \<Rightarrow> EnhancedExpr \<Rightarrow> EnhancedExpr" where
  "evaluate_or arg1 arg2 =
     (if arg1 = ETrueProp \<or> arg2 = ETrueProp then ETrueProp
      else if arg1 = EFalseProp \<and> arg2 = EFalseProp then EFalseProp
      else EApplication (EApplication (connective_constant ''OR'') arg1) arg2)"

definition evaluate_implies :: "EnhancedExpr \<Rightarrow> EnhancedExpr \<Rightarrow> EnhancedExpr" where
  "evaluate_implies arg1 arg2 =
     (if arg1 = EFalseProp \<or> arg2 = ETrueProp then ETrueProp
      else if arg1 = ETrueProp \<and> arg2 = EFalseProp then EFalseProp
      else EApplication (EApplication (connective_constant ''IMPLIES'') arg1) arg2)"

definition evaluate_eq :: "EnhancedExpr \<Rightarrow> EnhancedExpr \<Rightarrow> EnhancedExpr" where
  "evaluate_eq arg1 arg2 =
     (if (arg1 = ETrueProp \<and> arg2 = ETrueProp) \<or> (arg1 = EFalseProp \<and> arg2 = EFalseProp)
        then ETrueProp
      else if (arg1 = ETrueProp \<and> arg2 = EFalseProp) \<or> (arg1 = EFalseProp \<and> arg2 = ETrueProp)
        then EFalseProp
      else EApplication (EApplication (connective_constant ''EQ'') arg1) arg2)"

text \<open>\<open>_PartialApplication.apply\<close>: the stored evaluation method on both arguments.\<close>

fun partial_apply :: "connective \<Rightarrow> EnhancedExpr \<Rightarrow> EnhancedExpr \<Rightarrow> EnhancedExpr" where
  "partial_apply AND arg1 arg2 = evaluate_and arg1 arg2"
| "partial_apply OR arg1 arg2 = evaluate_or arg1 arg2"
| "partial_apply IMPLIES arg1 arg2 = evaluate_implies arg1 arg2"
| "partial_apply EQ arg1 arg2 = evaluate_eq arg1 arg2"

text \<open>
  The tail of the application case of \<open>EnhancedEvaluator.evaluate\<close>, once the function is
  known not to be an abstraction: a connective constant reduces or becomes a partial
  application, a partial application is completed, and everything else is returned as
  an application.
\<close>

fun enhanced_apply :: "EnhancedExpr \<Rightarrow> EnhancedExpr \<Rightarrow> EnhancedExpr" where
  "enhanced_apply (EConstant name t d) arg =
     (if name = ''NOT'' then evaluate_not arg
      else if name = ''AND'' then EPartialApplication AND arg
      else if name = ''OR'' then EPartialApplication OR arg
      else if name = ''IMPLIES'' then EPartialApplication IMPLIES arg
      else if name = ''EQ'' then EPartialApplication EQ arg
      else EApplication (EConstant name t d) arg)"
| "enhanced_apply (EPartialApplication op arg1) arg = partial_apply op arg1 arg"
| "enhanced_apply func arg = EApplication func arg"

partial_function (option) enhanced_evaluate :: "EnhancedExpr \<Rightarrow> EnhancedExpr option" where
  "enhanced_evaluate expr =
     (case expr of
        EVariable name ont_type \<Rightarrow>
          Some (case EnhancedEvaluator_env name of Some v \<Rightarrow> v | None \<Rightarrow> expr)
      | EAbstraction var_name var_type body \<Rightarrow>
          Option.bind (enhanced_evaluate body)
            (\<lambda>new_body. Some (EAbstraction var_name var_type new_body))
      | EApplication func0 arg0 \<Rightarrow>
          Option.bind (enhanced_evaluate func0) (\<lambda>func.
          Option.bind (enhanced_evaluate arg0) (\<lambda>arg.
            case func of
              EAbstraction var_name var_type body \<Rightarrow>
                enhanced_evaluate (enhanced_substitute body var_name arg)
            | _ \<Rightarrow> Some (enhanced_apply func arg)))
      | _ \<Rightarrow> Some expr)"

text \<open>The same two terms as objects of the enhanced evaluator.\<close>

definition enhanced_delta_term :: EnhancedExpr where
  "enhanced_delta_term =
     EAbstraction ''x'' TRUTH (EApplication (EVariable ''x'' TRUTH) (EVariable ''x'' TRUTH))"

definition enhanced_omega_term :: EnhancedExpr where
  "enhanced_omega_term = EApplication enhanced_delta_term enhanced_delta_term"

section \<open>k-d tree index\<close>

text \<open>
  \<open>KDNode\<close> and \<open>KDTree\<close> of Data Storage/knowledge_store.py. A child that is \<open>None\<close> is
  \<open>KDNone\<close>. Points are Python lists of floats; reading a coordinate beyond the end of a
  list raises \<open>IndexError\<close>, and \<open>depth % self.k\<close> raises \<open>ZeroDivisionError\<close> for \<open>k = 0\<close>.
  The attributes \<open>k\<close> and \<open>root\<close> of a tree are the fields \<open>tree_k\<close> and \<open>tree_root\<close>.
\<close>

datatype KDNode = KDNone | KDNode string "real list" KDNode KDNode

record KDTree =
  tree_k :: nat
  tree_root :: KDNode

definition new_KDTree :: "nat \<Rightarrow> KDTree" where
  "new_KDTree k = \<lparr> tree_k = k, tree_root = KDNone \<rparr>"

definition getitem :: "'a list \<Rightarrow> nat \<Rightarrow> error + 'a" where
  "getitem xs i = (if i < length xs then Inr (xs ! i) else Inl IndexError)"

definition py_mod :: "nat \<Rightarrow> nat \<Rightarrow> error + nat" where
  "py_mod a b = (if b = 0 then Inl ZeroDivisionError else Inr (a mod b))"

text \<open>\<open>KDTree._insert\<close>; nothing is assigned before the recursive call returns.\<close>

fun insert_node :: "nat \<Rightarrow> KDNode \<Rightarrow> string \<Rightarrow> real list \<Rightarrow> nat \<Rightarrow> error + KDNode" where
  "insert_node self_k KDNone node_id point depth = Inr (KDNode node_id point KDNone KDNone)"
| "insert_node self_k (KDNode nid npoint left right) node_id point depth =
     (case py_mod depth self_k of
        Inl e \<Rightarrow> Inl e
      | Inr axis \<Rightarrow>
          (case getitem point axis of
             Inl e \<Rightarrow> Inl e
           | Inr pa \<Rightarrow>
               (case getitem npoint axis of
                  Inl e \<Rightarrow> Inl e
                | Inr na \<Rightarrow>
                    if pa < na then
                      (case insert_node self_k left node_id point (depth + 1) of
                         Inl e \<Rightarrow> Inl e
                       | Inr left' \<Rightarrow> Inr (KDNode nid npoint left' right))
                    else
                      (case insert_node self_k right node_id point (depth + 1) of
                         Inl e \<Rightarrow> Inl e
                       | Inr right' \<Rightarrow> Inr (KDNode nid npoint left right')))))"

definition KDTree_insert :: "KDTree \<Rightarrow> string \<Rightarrow> real list \<Rightarrow> error + KDTree" where
  "KDTree_insert self node_id point =
     (case insert_node (tree_k self) (tree_root self) node_id point 0 of
        Inl e \<Rightarrow> Inl e
      | Inr root' \<Rightarrow> Inr (self\<lparr>tree_root := root'\<rparr>))"

subsection \<open>The heap of the standard library\<close>

text \<open>
  The search keeps its candidates in a list managed by \<open>heapq\<close>, as pairs
  \<open>(-dist_sq, node_id)\<close>. \<open>heapq\<close> belongs to the Python standard library; \<open>heappush\<close> and
  \<open>heapreplace\<close> are modelled after its reference implementation (\<open>_siftdown\<close>,
  \<open>_siftup\<close>), which moves a hole through the list. Tuples compare lexicographically,
  strings by code point.
\<close>

type_synonym heap_item = "real \<times> string"

definition item_less :: "heap_item \<Rightarrow> heap_item \<Rightarrow> bool" where
  "item_less a b = (fst a < fst b \<or> (fst a = fst b \<and> snd a < snd b))"

function siftdown :: "heap_item list \<Rightarrow> nat \<Rightarrow> nat \<Rightarrow> heap_item \<Rightarrow> heap_item list" where
  "siftdown heap startpos pos newitem =
     (if pos > startpos then
        (let parentpos = (pos - 1) div 2;
             parent = heap ! parentpos
         in if item_less newitem parent
            then siftdown (heap[pos := parent]) startpos parentpos newitem
            else heap[pos := newitem])
      else heap[pos := newitem])"
  by pat_completeness auto
termination
  by (relation "measure (\<lambda>(heap, startpos, pos, newitem). pos)") auto

declare siftdown.simps [simp del]

definition heappush :: "heap_item list \<Rightarrow> heap_item \<Rightarrow> heap_item list" where
  "heappush heap item = siftdown (heap @ [item]) 0 (length heap) item"

function siftup_loop :: "heap_item list \<Rightarrow> nat \<Rightarrow> heap_item list \<times> nat" where
  "siftup_loop heap pos =
     (let childpos = 2 * pos + 1 in
        if childpos < length heap then
          (let rightpos = childpos + 1;
               childpos' = (if rightpos < length heap
                               \<and> \<not> item_less (heap ! childpos) (heap ! rightpos)
                            then rightpos else childpos)
           in siftup_loop (heap[pos := heap ! childpos']) childpos')
        else (heap, pos))"
  by pat_completeness auto
termination
  by (relation "measure (\<lambda>(heap, pos). length heap - pos)") (auto simp add: Let_def)

declare siftup_loop.simps [simp del]

definition siftup :: "heap_item list \<Rightarrow> nat \<Rightarrow> heap_item list" where
  "siftup heap pos =
     (let newitem = heap ! pos;
          (heap', pos') = siftup_loop heap pos
      in siftdown (heap'[pos' := newitem]) pos pos' newitem)"

definition heapreplace :: "heap_item list \<Rightarrow> heap_item \<Rightarrow> error + heap_item list" where
  "heapreplace heap item =
     (case heap of [] \<Rightarrow> Inl IndexError | item0 # rest \<Rightarrow> Inr (siftup (heap[0 := item]) 0))"

definition heap_top :: "heap_item list \<Rightarrow> error + heap_item" where
  "heap_top heap = getitem heap 0"

subsection \<open>k-nearest search\<close>

definition dist_sq :: "real list \<Rightarrow> real list \<Rightarrow> real" where
  "dist_sq npoint point = sum_list (map (\<lambda>(a, b). (a - b)\<^sup>2) (zip npoint point))"

text \<open>
  The heap update at a visited node: push while fewer than \<open>k\<close> candidates are held,
  otherwise replace the furthest candidate when the node is closer.
\<close>

definition offer :: "heap_item list \<Rightarrow> int \<Rightarrow> heap_item \<Rightarrow> error + heap_item list" where
  "offer nearest k item =
     (if int (length nearest) < k then Inr (heappush nearest item)
      else (case heap_top nearest of
              Inl e \<Rightarrow> Inl e
            | Inr item0 \<Rightarrow> if fst item > fst item0 then heapreplace nearest item else Inr nearest))"

text \<open>
  Whether the far subtree is searched, given the heap after the near one:
  \<open>len(nearest) < k or diff ** 2 < -nearest[0][0]\<close>.
\<close>

definition search_second :: "heap_item list \<Rightarrow> int \<Rightarrow> real \<Rightarrow> error + bool" where
  "search_second nearest k diff =
     (if int (length nearest) < k then Inr True
      else (case heap_top nearest of
              Inl e \<Rightarrow> Inl e
            | Inr item0 \<Rightarrow> Inr (diff\<^sup>2 < - fst item0)))"

fun k_nearest_rec ::
  "nat \<Rightarrow> KDNode \<Rightarrow> real list \<Rightarrow> nat \<Rightarrow> heap_item list \<Rightarrow> int \<Rightarrow> error + heap_item list" where
  "k_nearest_rec self_k KDNone point depth nearest k = Inr nearest"
| "k_nearest_rec self_k (KDNode nid npoint left right) point depth nearest k =
     (case offer nearest k (- dist_sq npoint point, nid) of
        Inl e \<Rightarrow> Inl e
      | Inr nearest1 \<Rightarrow>
          (case py_mod depth self_k of
             Inl e \<Rightarrow> Inl e
           | Inr axis \<Rightarrow>
               (case getitem point axis of
                  Inl e \<Rightarrow> Inl e
                | Inr pa \<Rightarrow>
                    (case getitem npoint axis of
                       Inl e \<Rightarrow> Inl e
                     | Inr na \<Rightarrow>
                         (let diff = pa - na;
                              first = (if diff < 0 then left else right);
                              second = (if diff < 0 then right else left)
                          in case k_nearest_rec self_k first point (depth + 1) nearest1 k of
                               Inl e \<Rightarrow> Inl e
                             | Inr nearest2 \<Rightarrow>
                                 (case search_second nearest2 k diff of
                                    Inl e \<Rightarrow> Inl e
                                  | Inr True \<Rightarrow>
                                      k_nearest_rec self_k second point (depth + 1) nearest2 k
                                  | Inr False \<Rightarrow> Inr nearest2))))))"

definition k_nearest_neighbors ::
  "KDTree \<Rightarrow> real list \<Rightarrow> int \<Rightarrow> error + (string \<times> real) list" where
  "k_nearest_neighbors self point k =
     (case tree_root self of
        KDNone \<Rightarrow> Inr []
      | KDNode nid npoint left right \<Rightarrow>
          (case k_nearest_rec (tree_k self) (tree_root self) point 0 [] k of
             Inl e \<Rightarrow> Inl e
           | Inr nearest \<Rightarrow>
               Inr (sort_key snd (map (\<lambda>(neg_dist_sq, nid). (nid, sqrt (- neg_dist_sq))) nearest))))"

text \<open>The entries \<open>(node_id, point)\<close> of a tree, root first.\<close>

fun kd_entries :: "KDNode \<Rightarrow> (string \<times> real list) list" where
  "kd_entries KDNone = []"
| "kd_entries (KDNode nid npoint left right) =
     (nid, npoint) # kd_entries left @ kd_entries right"

text \<open>The heap item of a tree entry for a query point.\<close>

definition entry_item :: "real list \<Rightarrow> string \<times> real list \<Rightarrow> heap_item" where
  "entry_item point e = (- dist_sq (snd e) point, fst e)"

text \<open>What the search returns for an entry: its id and its distance to the query.\<close>

definition entry_distance :: "real list \<Rightarrow> string \<times> real list \<Rightarrow> string \<times> real" where
  "entry_distance point e = (fst e, sqrt (dist_sq (snd e) point))"

text \<open>
  A tree is well formed when its dimension is positive and every point in it has that
  many coordinates.
\<close>

definition tree_wf :: "KDTree \<Rightarrow> bool" where
  "tree_wf tr =
     (0 < tree_k tr \<and> list_all (\<lambda>e. length (snd e) = tree_k tr) (kd_entries (tree_root tr)))"

section \<open>Knowledge store\<close>

text \<open>
  \<open>FractalKnowledgeStore\<close> of Data Storage/knowledge_store.py. JSON-like values and
  dictionaries with string keys are association lists in insertion order; assigning to a
  key (\<open>d[k] = v\<close>, \<open>{**d, k: v}\<close>) is \<open>AList.update\<close>, which replaces in place or appends.
\<close>

datatype jval = JNull | JBool bool | JNum real | JStr string | JObj "(string \<times> jval) list"

type_synonym metadata = "(string \<times> jval) list"

text \<open>
  Modelled from the spec: the class \<open>OntologicalNode\<close> that the store imports from
  \<open>..ontology.ontological_node\<close> is not among the sources. The specification gives a node
  an id, a trinity vector, a position, a payload and an ordered sequence of outgoing
  \<open>(kind, target_id, metadata)\<close> triples; the store reads the attributes \<open>node_id\<close>, \<open>c\<close>
  (here \<open>c_value\<close>), \<open>trinity_vector\<close>, \<open>data_payload\<close> and \<open>relationships\<close>, and calls
  \<open>add_relationship\<close>, which appends a triple to the sequence. Serialising a node and
  reading it back is the identity, so a row of the nodes table holds the node itself.
\<close>

record OntologicalNode =
  node_id :: string
  c_value :: complex
  trinity_vector :: "real \<times> real \<times> real"
  data_payload :: metadata
  relationships :: "(string \<times> string \<times> metadata) list"

definition add_relationship ::
  "OntologicalNode \<Rightarrow> string \<Rightarrow> string \<Rightarrow> metadata \<Rightarrow> OntologicalNode" where
  "add_relationship node rtype tid md =
     node\<lparr>relationships := relationships node @ [(rtype, tid, md)]\<rparr>"

text \<open>\<open>OntologicalRelation\<close> (utils/data_structures.py), the result type of \<open>get_relations\<close>.\<close>

record OntologicalRelation =
  source_id :: string
  target_id :: string
  relation_type :: string
  strength :: jval
  metadata :: metadata

subsection \<open>The database\<close>

text \<open>
  The SQLite database is its two tables, rows in insertion order. \<open>id\<close> is the primary
  key of both. \<open>INSERT OR REPLACE\<close> deletes a row with the same primary key and appends
  the new one. Foreign keys are switched on: a relation row whose source or target is
  not in the nodes table is refused (\<open>sqlite3.IntegrityError\<close>, which the callers catch),
  and deleting a node row, also by replacement, deletes the relation rows that refer to
  it (\<open>ON DELETE CASCADE\<close>).
\<close>

record relation_row =
  row_id :: string
  row_source_id :: string
  row_target_id :: string
  row_relation_type :: string
  row_weight :: real
  row_metadata :: metadata

record database =
  nodes_table :: "(string \<times> OntologicalNode) list"
  relations_table :: "relation_row list"

definition empty_database :: database where
  "empty_database = \<lparr> nodes_table = [], relations_table = [] \<rparr>"

definition insert_or_replace_node :: "database \<Rightarrow> OntologicalNode \<Rightarrow> database" where
  "insert_or_replace_node db node =
     (let nid = node_id node;
          existed = (map_of (nodes_table db) nid \<noteq> None);
          rels = (if existed
                  then filter (\<lambda>r. row_source_id r \<noteq> nid \<and> row_target_id r \<noteq> nid)
                         (relations_table db)
                  else relations_table db)
      in \<lparr> nodes_table = filter (\<lambda>(k, v). k \<noteq> nid) (nodes_table db) @ [(nid, node)],
           relations_table = rels \<rparr>)"

text \<open>\<open>None\<close> when the foreign-key check fails; the transaction is then rolled back.\<close>

definition insert_or_replace_relation :: "database \<Rightarrow> relation_row \<Rightarrow> database option" where
  "insert_or_replace_relation db row =
     (if map_of (nodes_table db) (row_source_id row) = None
         \<or> map_of (nodes_table db) (row_target_id row) = None
      then None
      else Some (db\<lparr>relations_table :=
                    filter (\<lambda>r. row_id r \<noteq> row_id row) (relations_table db) @ [row]\<rparr>))"

subsection \<open>The store object\<close>

text \<open>
  The attributes of the store. \<open>conn\<close> is the open database or \<open>None\<close>; \<open>nodes\<close> is the
  cache dictionary.
\<close>

record FractalKnowledgeStore =
  cache_size :: int
  persistence_enabled :: bool
  conn :: "database option"
  trinity_index :: KDTree
  complex_index :: KDTree
  nodes :: "(string \<times> OntologicalNode) list"

text \<open>The connection the code uses: \<open>self.persistence_enabled and self.conn\<close>.\<close>

definition active_conn :: "FractalKnowledgeStore \<Rightarrow> database option" where
  "active_conn self = (if persistence_enabled self then conn self else None)"

definition trinity_point :: "OntologicalNode \<Rightarrow> real list" where
  "trinity_point node = (case trinity_vector node of (e, g, t) \<Rightarrow> [e, g, t])"

definition complex_point :: "OntologicalNode \<Rightarrow> real list" where
  "complex_point node = [Re (c_value node), Im (c_value node)]"

text \<open>
  \<open>_load_indices_from_db\<close>: every row of the nodes table is inserted into both trees.
\<close>

fun load_indices :: "(string \<times> OntologicalNode) list \<Rightarrow> KDTree \<times> KDTree \<Rightarrow> error + KDTree \<times> KDTree"
where
  "load_indices [] trees = Inr trees"
| "load_indices ((nid, node) # rows) (ti, ci) =
     (case KDTree_insert ti nid (trinity_point node) of
        Inl e \<Rightarrow> Inl e
      | Inr ti' \<Rightarrow>
          (case KDTree_insert ci nid (complex_point node) of
             Inl e \<Rightarrow> Inl e
           | Inr ci' \<Rightarrow> load_indices rows (ti', ci')))"

text \<open>
  \<open>__init__\<close>. The configuration is its two relevant entries, each possibly absent; the
  file system and \<open>sqlite3.connect\<close> are abstracted into the argument \<open>db\<close>: the database
  found at \<open>db_path\<close> (empty when new), or \<open>None\<close> when the directory or the connection
  could not be made, in which case persistence is switched off.
\<close>

definition FractalKnowledgeStore_init ::
  "int option \<Rightarrow> bool option \<Rightarrow> database option \<Rightarrow> error + FractalKnowledgeStore" where
  "FractalKnowledgeStore_init cfg_cache_size cfg_persistence_enabled db =
     (let cs = (case cfg_cache_size of Some n \<Rightarrow> n | None \<Rightarrow> 1000);
          pe = (case cfg_persistence_enabled of Some b \<Rightarrow> b | None \<Rightarrow> True);
          cn = (if pe then db else None);
          pe' = (pe \<and> cn \<noteq> None)
      in case load_indices (case cn of Some d \<Rightarrow> nodes_table d | None \<Rightarrow> [])
                (new_KDTree 3, new_KDTree 2) of
           Inl e \<Rightarrow> Inl e
         | Inr (ti, ci) \<Rightarrow>
             Inr \<lparr> cache_size = cs, persistence_enabled = pe', conn = cn,
                   trinity_index = ti, complex_index = ci, nodes = [] \<rparr>)"

text \<open>
  \<open>store_node\<close> and \<open>_persist_node\<close>. An exception of a tree insertion is not caught; it
  cannot arise when every point of a tree has the tree's dimension.
\<close>

definition store_node :: "FractalKnowledgeStore \<Rightarrow> OntologicalNode \<Rightarrow> error + FractalKnowledgeStore"
where
  "store_node self node =
     (let self1 = self\<lparr>nodes := AList.update (node_id node) node (nodes self)\<rparr> in
      case KDTree_insert (trinity_index self1) (node_id node) (trinity_point node) of
        Inl e \<Rightarrow> Inl e
      | Inr ti \<Rightarrow>
          (case KDTree_insert (complex_index self1) (node_id node) (complex_point node) of
             Inl e \<Rightarrow> Inl e
           | Inr ci \<Rightarrow>
               (let self2 = self1\<lparr>trinity_index := ti, complex_index := ci\<rparr> in
                case active_conn self2 of
                  Some db \<Rightarrow> Inr (self2\<lparr>conn := Some (insert_or_replace_node db node)\<rparr>)
                | None \<Rightarrow> Inr self2)))"

text \<open>
  \<open>_load_node_from_db\<close> with \<open>_load_relationships_for_node\<close>: the stored node, its id set
  to the requested one, its relationships rebuilt from the relation rows of which it is
  the source.
\<close>

definition load_node_from_db :: "database \<Rightarrow> string \<Rightarrow> OntologicalNode option" where
  "load_node_from_db db nid =
     (case map_of (nodes_table db) nid of
        None \<Rightarrow> None
      | Some stored \<Rightarrow>
          Some (foldl (\<lambda>node r. add_relationship node (row_relation_type r) (row_target_id r)
                                   (row_metadata r))
                  (stored\<lparr>node_id := nid, relationships := []\<rparr>)
                  (filter (\<lambda>r. row_source_id r = nid) (relations_table db))))"

text \<open>
  \<open>get_node\<close>: a cache hit returns the cached node and changes nothing; a miss loads the
  node from the database and puts it into the cache.
\<close>

definition get_node ::
  "FractalKnowledgeStore \<Rightarrow> string \<Rightarrow> OntologicalNode option \<times> FractalKnowledgeStore" where
  "get_node self nid =
     (case map_of (nodes self) nid of
        Some node \<Rightarrow> (Some node, self)
      | None \<Rightarrow>
          (case active_conn self of
             Some db \<Rightarrow>
               (case load_node_from_db db nid of
                  Some node \<Rightarrow> (Some node, self\<lparr>nodes := AList.update nid node (nodes self)\<rparr>)
                | None \<Rightarrow> (None, self))
           | None \<Rightarrow> (None, self)))"

text \<open>
  \<open>add_relation\<close>. The relation row's id ends in four hexadecimal digits of a fresh
  \<open>uuid4\<close>, the argument \<open>uuid_hex\<close> here. \<open>upsert_relationship\<close> is the loop over the
  source node's relationships: the first triple with the same type and target is
  replaced, and a new triple is appended when there is none.
\<close>

fun replace_first ::
  "(string \<times> string \<times> metadata) list \<Rightarrow> string \<Rightarrow> string \<Rightarrow> metadata
     \<Rightarrow> (string \<times> string \<times> metadata) list option" where
  "replace_first [] rtype tid md = None"
| "replace_first ((rt, t, m) # rest) rtype tid md =
     (if rt = rtype \<and> t = tid then Some ((rtype, tid, md) # rest)
      else map_option (\<lambda>rest'. (rt, t, m) # rest') (replace_first rest rtype tid md))"

definition upsert_relationship ::
  "OntologicalNode \<Rightarrow> string \<Rightarrow> string \<Rightarrow> metadata \<Rightarrow> OntologicalNode" where
  "upsert_relationship node rtype tid md =
     (case replace_first (relationships node) rtype tid md of
        Some rels \<Rightarrow> node\<lparr>relationships := rels\<rparr>
      | None \<Rightarrow> add_relationship node rtype tid md)"

definition add_relation ::
  "FractalKnowledgeStore \<Rightarrow> string \<Rightarrow> string \<Rightarrow> string \<Rightarrow> real \<Rightarrow> metadata option \<Rightarrow> string
     \<Rightarrow> bool \<times> FractalKnowledgeStore" where
  "add_relation self src tgt rtype weight md uuid_hex =
     (case get_node self src of
        (None, self1) \<Rightarrow> (False, self1)
      | (Some a, self1) \<Rightarrow>
          (case get_node self1 tgt of
             (None, self2) \<Rightarrow> (False, self2)
           | (Some b, self2) \<Rightarrow>
               (let md0 = (case md of Some m \<Rightarrow> m | None \<Rightarrow> []);
                    source_node = map_of (nodes self2) src;
                    self3 = (case source_node of
                               Some sn \<Rightarrow>
                                 self2\<lparr>nodes := AList.update src
                                     (upsert_relationship sn rtype tgt
                                        (AList.update ''strength'' (JNum weight) md0))
                                     (nodes self2)\<rparr>
                             | None \<Rightarrow> self2)
                in case active_conn self3 of
                     Some db \<Rightarrow>
                       (case insert_or_replace_relation db
                               \<lparr> row_id = src @ ''_'' @ rtype @ ''_'' @ tgt @ ''_'' @ uuid_hex,
                                 row_source_id = src, row_target_id = tgt,
                                 row_relation_type = rtype, row_weight = weight,
                                 row_metadata = md0 \<rparr> of
                          Some db' \<Rightarrow> (True, self3\<lparr>conn := Some db'\<rparr>)
                        | None \<Rightarrow> (False, self3))
                   | None \<Rightarrow> (source_node \<noteq> None, self3))))"

text \<open>
  \<open>get_relations\<close>. The direction is the string of the source; the type filter of the
  database query applies when \<open>relation_type\<close> is truthy (neither \<open>None\<close> nor empty). The
  rows of the database are added unless their \<open>(source, target, type)\<close> was seen.
\<close>

definition from_cache :: "string \<Rightarrow> string option \<Rightarrow> OntologicalNode \<Rightarrow> OntologicalRelation list"
where
  "from_cache nid rtype node =
     map (\<lambda>(rt, tid, md).
            \<lparr> source_id = nid, target_id = tid, relation_type = rt,
              strength = (case map_of md ''strength'' of Some v \<Rightarrow> v | None \<Rightarrow> JNum 1),
              metadata = md \<rparr>)
       (filter (\<lambda>(rt, tid, md). rtype = None \<or> Some rt = rtype) (relationships node))"

fun add_unseen :: "relation_row list \<Rightarrow> OntologicalRelation list \<Rightarrow> OntologicalRelation list"
where
  "add_unseen [] relations = relations"
| "add_unseen (r # rows) relations =
     (if (row_source_id r, row_target_id r, row_relation_type r)
           \<in> set (map (\<lambda>x. (source_id x, target_id x, relation_type x)) relations)
      then add_unseen rows relations
      else add_unseen rows
             (relations @ [\<lparr> source_id = row_source_id r, target_id = row_target_id r,
                              relation_type = row_relation_type r,
                              strength = JNum (row_weight r),
                              metadata = row_metadata r \<rparr>]))"

definition get_relations ::
  "FractalKnowledgeStore \<Rightarrow> string \<Rightarrow> string option \<Rightarrow> string
     \<Rightarrow> OntologicalRelation list \<times> FractalKnowledgeStore" where
  "get_relations self nid rtype direction =
     (case get_node self nid of (node, self1) \<Rightarrow>
        (let out = (direction = ''outgoing'' \<or> direction = ''both'');
             inc = (direction = ''incoming'' \<or> direction = ''both'');
             relations = (case node of
                            Some n \<Rightarrow> if out then from_cache nid rtype n else []
                          | None \<Rightarrow> [])
         in case active_conn self1 of
              None \<Rightarrow> (relations, self1)
            | Some db \<Rightarrow>
                if \<not> out \<and> \<not> inc then ([], self1)
                else
                  (let rows = filter
                         (\<lambda>r. ((out \<and> row_source_id r = nid) \<or> (inc \<and> row_target_id r = nid))
                              \<and> (case rtype of
                                    Some rt \<Rightarrow> rt = [] \<or> row_relation_type r = rt
                                  | None \<Rightarrow> True))
                         (relations_table db)
                   in (add_unseen rows relations, self1))))"

text \<open>
  \<open>find_nearest_by_trinity\<close> and \<open>find_nearest_by_position\<close>, on a 3-tuple and on a
  complex number: \<open>k\<close> is raised to at least 1 and the tree's result is returned as it
  is.
\<close>

definition find_nearest_by_trinity ::
  "FractalKnowledgeStore \<Rightarrow> real \<times> real \<times> real \<Rightarrow> int \<Rightarrow> error + (string \<times> real) list" where
  "find_nearest_by_trinity self vector k =
     (case vector of (e, g, t) \<Rightarrow>
        k_nearest_neighbors (trinity_index self) [e, g, t] (max 1 k))"

definition find_nearest_by_position ::
  "FractalKnowledgeStore \<Rightarrow> complex \<Rightarrow> int \<Rightarrow> error + (string \<times> real) list" where
  "find_nearest_by_position self position k =
     k_nearest_neighbors (complex_index self) [Re position, Im position] (max 1 k)"

text \<open>
  The two indices of a store are well formed when the trinity index is a well-formed
  tree of dimension 3 and the complex index one of dimension 2.
\<close>

definition indices_wf :: "FractalKnowledgeStore \<Rightarrow> bool" where
  "indices_wf self =
     (tree_wf (trinity_index self) \<and> tree_k (trinity_index self) = 3
      \<and> tree_wf (complex_index self) \<and> tree_k (complex_index self) = 2)"

subsection \<open>Sessions\<close>

text \<open>
  Sequencing of calls that may raise, and a few concrete sessions on concrete nodes.
  \<open>node_A\<close> and \<open>node_B\<close> are the nodes of the end-to-end scenarios of the specification;
  \<open>node_P\<close> and \<open>node_P_moved\<close> are one node (same id) before and after its coordinates
  changed.
\<close>

definition bind_result :: "error + 'a \<Rightarrow> ('a \<Rightarrow> error + 'b) \<Rightarrow> error + 'b" where
  "bind_result r f = (case r of Inl e \<Rightarrow> Inl e | Inr x \<Rightarrow> f x)"

definition node_A :: OntologicalNode where
  "node_A = \<lparr> node_id = ''A'', c_value = Complex (72/100) (7/10),
              trinity_vector = (8/10, 7/10, 9/10),
              data_payload = [(''label'', JStr ''a'')], relationships = [] \<rparr>"

definition node_B :: OntologicalNode where
  "node_B = \<lparr> node_id = ''B'', c_value = Complex (7371/10000) (71/100),
              trinity_vector = (81/100, 71/100, 91/100),
              data_payload = [(''label'', JStr ''b'')], relationships = [] \<rparr>"

definition node_P :: OntologicalNode where
  "node_P = \<lparr> node_id = ''P'', c_value = Complex 0 (1/2),
              trinity_vector = (0, 1/2, 1/2),
              data_payload = [(''label'', JStr ''p'')], relationships = [] \<rparr>"

definition node_P_moved :: OntologicalNode where
  "node_P_moved = node_P\<lparr> c_value := Complex (1/2) (1/2), trinity_vector := (1, 1/2, 1/2) \<rparr>"

text \<open>An in-memory store in which \<open>node_P\<close> is stored, changed and stored again.\<close>

definition session_moved :: "error + FractalKnowledgeStore" where
  "session_moved =
     bind_result (FractalKnowledgeStore_init None (Some False) None) (\<lambda>s0.
     bind_result (store_node s0 node_P) (\<lambda>s1.
     store_node s1 node_P_moved))"

text \<open>An in-memory store with \<open>cache_size = 1\<close> in which two nodes are stored.\<close>

definition session_small_cache :: "error + FractalKnowledgeStore" where
  "session_small_cache =
     bind_result (FractalKnowledgeStore_init (Some 1) (Some False) None) (\<lambda>s0.
     bind_result (store_node s0 node_A) (\<lambda>s1.
     store_node s1 node_B))"

text \<open>
  A persistent store on a new database: two nodes are stored, and the same relation is
  added twice (the two calls draw different \<open>uuid4\<close> digits).
\<close>

definition session_entails_twice :: "error + FractalKnowledgeStore" where
  "session_entails_twice =
     bind_result (FractalKnowledgeStore_init None None (Some empty_database)) (\<lambda>s0.
     bind_result (store_node s0 node_A) (\<lambda>s1.
     bind_result (store_node s1 node_B) (\<lambda>s2.
     Inr (snd (add_relation
                (snd (add_relation s2 ''A'' ''B'' ''entails'' (7/10) None ''0a1b''))
                ''A'' ''B'' ''entails'' (7/10) None ''c2d3'')))))"

text \<open>The store of a later session opened on the database a session left behind.\<close>

definition reopen :: "error + FractalKnowledgeStore \<Rightarrow> int option \<Rightarrow> error + FractalKnowledgeStore"
where
  "reopen session cfg_cache_size =
     bind_result session (\<lambda>s. FractalKnowledgeStore_init cfg_cache_size None (conn s))"

section \<open>Properties of the modal classifier\<close>

subsection \<open>C1: the threshold rules\<close>

text \<open>
  C1, as stated, asks that \<open>(0.95, 0.95, 0.95)\<close> classify as Necessary and
  \<open>(0.1, 0.1, 0.1)\<close> as Possible. The first test of \<open>trinity_to_modal\<close> is strict, so the
  first input falls through to ''actual''; \<open>calculate_modal_status\<close> tests \<open>truth > 0.1\<close>
  strictly, so the third input is ''impossible'' there.
\<close>

theorem C1_boundary_counterexample:
  "modal_spec (95/100, 95/100, 95/100) = ''necessary''
   \<and> trinity_to_modal (95/100, 95/100, 95/100) = ''actual''
   \<and> fst (calculate_modal_status (mk_TrinityVector (1/10) (1/10) (1/10))) = ''impossible''"
  by (simp add: modal_spec_def coherence_spec_def trinity_to_modal_def coherence_def
      calculate_modal_status_def mk_TrinityVector_def)

text \<open>
  C1, amended: \<open>trinity_to_modal\<close> applies its rules in order with first match winning,
  every test strict: ''necessary'' exactly when \<open>t > 0.95\<close>, \<open>e > 0.90\<close> and
  \<open>coherence > 0.90\<close>; otherwise ''actual'' exactly when \<open>t > 0.50\<close> and \<open>e > 0.50\<close>;
  otherwise ''possible'' exactly when \<open>t > 0.05\<close> and \<open>e > 0.05\<close>; otherwise ''impossible''.
  The four scenario inputs classify as actual, actual, possible and impossible.
\<close>

theorem C1_trinity_to_modal_rules:
  fixes e g t :: real
  defines "nec \<equiv> t > 95/100 \<and> e > 9/10 \<and> coherence (e, g, t) > 9/10"
  shows "(trinity_to_modal (e, g, t) = ''necessary'') = nec
    \<and> (trinity_to_modal (e, g, t) = ''actual'') = (\<not> nec \<and> t > 5/10 \<and> e > 5/10)
    \<and> (trinity_to_modal (e, g, t) = ''possible'')
        = (\<not> (t > 5/10 \<and> e > 5/10) \<and> t > 5/100 \<and> e > 5/100)
    \<and> (trinity_to_modal (e, g, t) = ''impossible'') = (\<not> (t > 5/100 \<and> e > 5/100))
    \<and> trinity_to_modal (95/100, 95/100, 95/100) = ''actual''
    \<and> trinity_to_modal (6/10, 6/10, 6/10) = ''actual''
    \<and> trinity_to_modal (1/10, 1/10, 1/10) = ''possible''
    \<and> trinity_to_modal (0, 0, 0) = ''impossible''"
  unfolding nec_def by (auto simp add: trinity_to_modal_def coherence_def)

subsection \<open>C2: the coherence scalar\<close>

text \<open>
  C2, as stated, asks for coherence 0 when \<open>e\<cdot>t = 0\<close> and for coherence 1 whenever
  \<open>g \<ge> e\<cdot>t\<close>. On a vector of the unit cube with \<open>e\<cdot>t = 0\<close> both apply; the code's second
  assignment wins and the value is 1. The quotient of \<open>calculate_modal_status\<close> is not
  clamped at all and leaves the unit interval.
\<close>

theorem C2_zero_product_counterexample:
  "coherence_spec (0, 0, 0) = 0 \<and> coherence (0, 0, 0) = 1
   \<and> snd (calculate_modal_status (mk_TrinityVector 0 1 0)) > 1"
  by (simp add: coherence_spec_def coherence_def calculate_modal_status_def
      mk_TrinityVector_def)

text \<open>
  C2, amended: for every trinity vector of the unit cube, the coherence computed by
  \<open>trinity_to_modal\<close> equals \<open>g/(e\<cdot>t)\<close> clamped to \<open>[0,1]\<close> when \<open>e\<cdot>t > 0\<close> and equals 1
  when \<open>e\<cdot>t = 0\<close>; it always lies in \<open>[0,1]\<close>, and it is exactly 1 whenever \<open>g \<ge> e\<cdot>t\<close>.
\<close>

theorem C2_coherence_unit_cube:
  fixes e g t :: real
  assumes "0 \<le> e" "e \<le> 1" "0 \<le> g" "g \<le> 1" "0 \<le> t" "t \<le> 1"
  shows "coherence (e, g, t) = (if e * t > 0 then max 0 (min 1 (g / (e * t))) else 1)
    \<and> 0 \<le> coherence (e, g, t) \<and> coherence (e, g, t) \<le> 1
    \<and> (g \<ge> e * t \<longrightarrow> coherence (e, g, t) = 1)"
proof -
  have nonneg: "0 \<le> e * t" using assms by simp
  show ?thesis
  proof (cases "e * t > 0")
    case True
    then show ?thesis using assms
      by (auto simp add: coherence_def Let_def min_def max_def field_simps)
  next
    case False
    with nonneg have "e * t \<le> g" using assms by linarith
    with False show ?thesis by (simp add: coherence_def Let_def)
  qed
qed

theorem C2_coherence_unit_cube_witness:
  "coherence (8/10, 7/10, 9/10) = 35/36 \<and> coherence (1/2, 1/2, 1/2) = 1"
proof -
  have "coherence (8/10, 7/10, 9/10)
      = (if (8/10::real) * (9/10) > 0 then max 0 (min 1 ((7/10) / ((8/10) * (9/10)))) else 1)"
    using C2_coherence_unit_cube [of "8/10" "7/10" "9/10"] by simp
  moreover have "coherence (1/2, 1/2, 1/2) = 1"
    using C2_coherence_unit_cube [of "1/2" "1/2" "1/2"] by simp
  ultimately show ?thesis by simp
qed

section \<open>Properties of the escape-time positioner\<close>

lemma for_loop_stays:
  "z = orbit c (nat i) \<Longrightarrow> 0 \<le> i \<Longrightarrow>
   (\<forall>j. i \<le> j \<and> j < max_iter \<longrightarrow> cmod (orbit c (Suc (nat j))) \<le> 2) \<Longrightarrow>
   for_loop c max_iter i z = (max_iter, True)"
proof (induction c max_iter i z rule: for_loop.induct)
  case (1 c max_iter i z)
  show ?case
  proof (cases "i < max_iter")
    case False
    then show ?thesis by (subst for_loop.simps) simp
  next
    case True
    let ?z' = "z * z + c"
    have z': "?z' = orbit c (Suc (nat i))" using "1.prems" by simp
    have small: "\<not> cmod ?z' > 2" using "1.prems" True z' by (simp add: not_less)
    have next_idx: "?z' = orbit c (nat (i + 1))"
      using z' "1.prems"(2) by (simp add: nat_add_distrib)
    have "for_loop c max_iter (i + 1) ?z' = (max_iter, True)"
      using "1.IH" [OF True refl small next_idx] "1.prems" by simp
    then show ?thesis using True small by (subst for_loop.simps) (simp add: Let_def)
  qed
qed

lemma for_loop_escapes:
  "z = orbit c (nat i) \<Longrightarrow> 0 \<le> i \<Longrightarrow> i \<le> k \<Longrightarrow> k < max_iter \<Longrightarrow>
   (\<forall>j. i \<le> j \<and> j < k \<longrightarrow> cmod (orbit c (Suc (nat j))) \<le> 2) \<Longrightarrow>
   cmod (orbit c (Suc (nat k))) > 2 \<Longrightarrow>
   for_loop c max_iter i z = (k, False)"
proof (induction c max_iter i z rule: for_loop.induct)
  case (1 c max_iter i z)
  have lt: "i < max_iter" using "1.prems" by simp
  let ?z' = "z * z + c"
  have z': "?z' = orbit c (Suc (nat i))" using "1.prems" by simp
  show ?case
  proof (cases "i = k")
    case True
    then have "cmod ?z' > 2" using "1.prems" z' by simp
    then show ?thesis using lt True by (subst for_loop.simps) (simp add: Let_def)
  next
    case False
    then have ik: "i < k" using "1.prems" by simp
    have small: "\<not> cmod ?z' > 2" using "1.prems" ik z' by (simp add: not_less)
    have next_idx: "?z' = orbit c (nat (i + 1))"
      using z' "1.prems"(2) by (simp add: nat_add_distrib)
    have "for_loop c max_iter (i + 1) ?z' = (k, False)"
      using "1.IH" [OF lt refl small next_idx] "1.prems" ik by simp
    then show ?thesis using lt small by (subst for_loop.simps) (simp add: Let_def)
  qed
qed

lemma orbit_zero: "orbit 0 n = 0"
  by (induction n) simp_all

subsection \<open>C3: what the loop returns\<close>

text \<open>
  C3, as stated, has the positioner emit the number \<open>n\<close> of updates performed by the
  while loop of the specification, and has every \<open>c\<close> with \<open>|c| > 2\<close> outside the set.
  At \<open>c = 3\<close>, \<open>max_iter = 5\<close> the loop of the specification performs one update and emits
  1, while \<open>compute_iterations\<close> returns the index 0 of the escaping pass; at \<open>max_iter = 0\<close>
  the same \<open>c\<close> is reported in the set.
\<close>

theorem C3_iteration_count_counterexample:
  "escape_spec (Complex 3 0) 5 2 = (1, False)
   \<and> compute_iterations (Complex 3 0) 5 = (0, False)
   \<and> cmod (Complex 3 0) > 2 \<and> compute_iterations (Complex 3 0) 0 = (0, True)"
proof -
  have "escape_spec (Complex 3 0) 5 2 = (1, False)"
    unfolding escape_spec_def
    by (subst escape_spec_loop.simps, subst escape_spec_loop.simps) (simp add: cmod_def)
  moreover have "compute_iterations (Complex 3 0) 5 = (0, False)"
    unfolding compute_iterations_def by (subst for_loop.simps) (simp add: cmod_def)
  moreover have "compute_iterations (Complex 3 0) 0 = (0, True)"
    unfolding compute_iterations_def by (subst for_loop.simps) simp
  ultimately show ?thesis by (simp add: cmod_def)
qed

text \<open>
  C3, amended: the positioner sets \<open>c = (e\<cdot>t) + i\<cdot>g\<close>; \<open>compute_iterations\<close> starts from
  \<open>z = 0\<close> and, for \<open>i = 0, 1, \<dots>, max_iter - 1\<close>, updates \<open>z \<leftarrow> z\<^sup>2 + c\<close> and returns
  \<open>(i, false)\<close> at the first \<open>i\<close> whose updated \<open>z\<close> has \<open>|z| > 2\<close> (the escaping update is
  not counted, and the threshold is the constant 2), and returns \<open>(max_iter, true)\<close> when
  no update escapes. Consequently \<open>max_iter = 0\<close> yields \<open>(0, true)\<close>, \<open>c = 0\<close> yields
  \<open>(max_iter, true)\<close>, and every \<open>c\<close> with \<open>|c| > 2\<close> yields \<open>(0, false)\<close> whenever
  \<open>max_iter > 0\<close>.
\<close>

theorem C3_compute_iterations:
  "map_to_complex (e, g, t) = Complex (e * t) g
   \<and> ((\<forall>j. 0 \<le> j \<and> j < max_iter \<longrightarrow> cmod (orbit c (Suc (nat j))) \<le> 2)
        \<longrightarrow> compute_iterations c max_iter = (max_iter, True))
   \<and> (0 \<le> k \<and> k < max_iter \<and> cmod (orbit c (Suc (nat k))) > 2
        \<and> (\<forall>j. 0 \<le> j \<and> j < k \<longrightarrow> cmod (orbit c (Suc (nat j))) \<le> 2)
        \<longrightarrow> compute_iterations c max_iter = (k, False))
   \<and> compute_iterations c 0 = (0, True)
   \<and> compute_iterations 0 max_iter = (max_iter, True)
   \<and> (cmod c > 2 \<and> 0 < max_iter \<longrightarrow> compute_iterations c max_iter = (0, False))"
proof -
  have stays: "compute_iterations c' m = (m, True)"
    if "\<forall>j. 0 \<le> j \<and> j < m \<longrightarrow> cmod (orbit c' (Suc (nat j))) \<le> 2" for c' m
    unfolding compute_iterations_def using that by (intro for_loop_stays) simp_all
  have escapes: "compute_iterations c max_iter = (k', False)"
    if "0 \<le> k'" "k' < max_iter" "cmod (orbit c (Suc (nat k'))) > 2"
       "\<forall>j. 0 \<le> j \<and> j < k' \<longrightarrow> cmod (orbit c (Suc (nat j))) \<le> 2" for k'
    unfolding compute_iterations_def using that by (intro for_loop_escapes) simp_all
  have "compute_iterations c 0 = (0, True)"
    by (rule stays) simp
  moreover have "compute_iterations 0 max_iter = (max_iter, True)"
    by (rule stays) (simp add: orbit_zero)
  moreover have "compute_iterations c max_iter = (0, False)" if "cmod c > 2" "0 < max_iter"
    using escapes [of 0] that by simp
  ultimately show ?thesis
    using stays [of max_iter c] escapes [of k] by (simp add: map_to_complex_def)
qed

theorem C3_compute_iterations_witness:
  "compute_iterations (Complex 3 0) 5 = (0, False) \<and> compute_iterations 0 2 = (2, True)"
proof -
  have big: "cmod (Complex 3 0) > 2" by (simp add: cmod_def)
  have "compute_iterations (Complex 3 0) 5 = (0, False)"
    using C3_compute_iterations [of 0 0 0 5 "Complex 3 0" 0] big by simp
  moreover have "compute_iterations 0 2 = (2, True)"
    using C3_compute_iterations [of 0 0 0 2 0 0] by (simp add: orbit_zero)
  ultimately show ?thesis by simp
qed

section \<open>Properties of the expression kernel\<close>

subsection \<open>The type checker restores its environment\<close>

lemma del_env_fresh: "env name = None \<Longrightarrow> del_env (env(name \<mapsto> t)) name = Inr env"
  by (simp add: del_env_def fun_upd_idem)

lemma check_type_restores: "\<exists>t. check_type expr env = Inr (t, env)"
proof (induction expr arbitrary: env)
  case (Abstraction var_name var_type body)
  obtain bt where body: "check_type body (env(var_name \<mapsto> Onto var_type))
      = Inr (bt, env(var_name \<mapsto> Onto var_type))"
    using Abstraction.IH by blast
  show ?case
  proof (cases "env var_name")
    case None
    with body show ?thesis by (cases bt) (simp_all add: del_env_fresh)
  next
    case (Some b)
    then have "env(var_name \<mapsto> b) = env" by (simp add: fun_upd_idem)
    with body Some show ?thesis by (cases bt) simp_all
  qed
next
  case (Application func arg)
  obtain ft where f: "check_type func env = Inr (ft, env)"
    using Application.IH(1) by blast
  obtain argt where a: "check_type arg env = Inr (argt, env)"
    using Application.IH(2) by blast
  show ?case using f a by (auto split: option.splits ty.splits)
qed simp_all

text \<open>
  C10: for every expression and every environment, \<open>check_type\<close> raises no exception
  and returns with the environment it was called with: each name is mapped to the type
  it had before the call, the binding made for an abstraction's variable being undone
  (the old binding put back, or the name deleted when there was none).
\<close>

theorem C10_check_type_env_unchanged:
  "check_type expr env = Inr (type_of env expr, env)"
proof -
  obtain t where "check_type expr env = Inr (t, env)"
    using check_type_restores by blast
  then show ?thesis by (simp add: type_of_def)
qed

subsection \<open>C6: typing an application\<close>


subsection \<open>C5: substitution\<close>

lemma substitute_free_vars:
  "bound_names M \<inter> free_vars v = {} \<Longrightarrow>
   free_vars (substitute M x v)
     = (free_vars M - {x}) \<union> (if x \<in> free_vars M then free_vars v else {})"
proof (induction M)
  case (Abstraction y t body)
  then show ?case by auto
next
  case (Application func arg)
  then have "bound_names func \<inter> free_vars v = {}" "bound_names arg \<inter> free_vars v = {}"
    by auto
  with Application.IH show ?case by auto
qed simp_all

text \<open>
  C5, as stated, has no free variable of the replacement captured by a binder of the
  expression. Substituting the variable \<open>y\<close> for \<open>x\<close> in \<open>\<lambda>y. x\<close> gives \<open>\<lambda>y. y\<close>: the
  replacement's free \<open>y\<close> is bound in the result.
\<close>

theorem C5_capture_counterexample:
  "substitute (Abstraction ''y'' TRUTH (Variable ''x'' TRUTH)) ''x'' (Variable ''y'' TRUTH)
     = Abstraction ''y'' TRUTH (Variable ''y'' TRUTH)
   \<and> ''x'' \<in> free_vars (Abstraction ''y'' TRUTH (Variable ''x'' TRUTH))
   \<and> ''y'' \<in> free_vars (Variable ''y'' TRUTH)
   \<and> ''y'' \<notin> free_vars
        (substitute (Abstraction ''y'' TRUTH (Variable ''x'' TRUTH)) ''x''
           (Variable ''y'' TRUTH))"
  by simp

text \<open>
  C5, amended: for every expression \<open>M\<close>, name \<open>x\<close> and replacement \<open>v\<close>, when \<open>M\<close> is an
  abstraction that binds \<open>x\<close> itself the substitution is blocked at that binder; and
  when no free variable of \<open>v\<close> is the name of a binder inside \<open>M\<close>, no capture occurs:
  the free variables of the result are those of \<open>M\<close> other than \<open>x\<close>, together with those
  of \<open>v\<close> if \<open>x\<close> is free in \<open>M\<close>.
\<close>

theorem C5_substitute_blocked_and_capture_free:
  "substitute (Abstraction x \<tau> body) x v = Abstraction x \<tau> body
   \<and> (bound_names M \<inter> free_vars v = {} \<longrightarrow>
        free_vars (substitute M x v)
          = (free_vars M - {x}) \<union> (if x \<in> free_vars M then free_vars v else {}))"
  using substitute_free_vars [of M v x] by simp

theorem C5_substitute_blocked_and_capture_free_witness:
  "free_vars
     (substitute (Abstraction ''y'' TRUTH (Application (Variable ''x'' TRUTH) (Variable ''y'' TRUTH)))
        ''x'' (Variable ''z'' TRUTH))
   = {''z''}"
  using C5_substitute_blocked_and_capture_free
    [of "''x''" TRUTH "Variable ''x'' TRUTH" "Variable ''z'' TRUTH"
        "Abstraction ''y'' TRUTH (Application (Variable ''x'' TRUTH) (Variable ''y'' TRUTH))"]
  by auto

subsection \<open>C4: evaluation\<close>

lemma initial_env_x: "Evaluator_initial_env ''x'' = None"
  by (simp add: Evaluator_initial_env_def create_logical_connectives_def
      create_core_axioms_def Let_def)

lemma omega_invariant:
  assumes ev: "evaluate env expr = Some y"
  shows "env = Evaluator_initial_env \<longrightarrow>
     (expr = Variable ''x'' TRUTH \<longrightarrow> y = expr)
   \<and> (expr = Application (Variable ''x'' TRUTH) (Variable ''x'' TRUTH) \<longrightarrow> y = expr)
   \<and> (expr = delta_term \<longrightarrow> y = delta_term)
   \<and> expr \<noteq> omega_term"
proof (rule evaluate.raw_induct [where P = "\<lambda>env expr y. env = Evaluator_initial_env \<longrightarrow>
     (expr = Variable ''x'' TRUTH \<longrightarrow> y = expr)
   \<and> (expr = Application (Variable ''x'' TRUTH) (Variable ''x'' TRUTH) \<longrightarrow> y = expr)
   \<and> (expr = delta_term \<longrightarrow> y = delta_term)
   \<and> expr \<noteq> omega_term", OF _ ev], goal_cases)
  case (1 ev' env expr y)
  let ?x = "Variable ''x'' TRUTH"
  let ?xx = "Application ?x ?x"
  show ?case
  proof (intro impI conjI)
    assume env: "env = Evaluator_initial_env" and e: "expr = ?x"
    show "y = expr" using "1"(2) env e initial_env_x by simp
  next
    assume env: "env = Evaluator_initial_env" and e: "expr = ?xx"
    from "1"(2) e obtain f a where f: "ev' env ?x = Some f" and a: "ev' env ?x = Some a"
      and y: "(case f of
                 Abstraction var_name var_type body \<Rightarrow> ev' env (substitute body var_name a)
               | _ \<Rightarrow> Some (apply_constant f a)) = Some y"
      by (auto split: Option.bind_splits)
    from "1"(1) [OF f] env have "f = ?x" by simp
    moreover from "1"(1) [OF a] env have "a = ?x" by simp
    ultimately show "y = expr" using y e by simp
  next
    assume env: "env = Evaluator_initial_env" and e: "expr = delta_term"
    from "1"(2) e obtain nb where nb: "ev' env ?xx = Some nb"
      and y: "y = Abstraction ''x'' TRUTH nb"
      by (auto simp add: delta_term_def split: Option.bind_splits)
    from "1"(1) [OF nb] env have "nb = ?xx" by simp
    with y show "y = delta_term" by (simp add: delta_term_def)
  next
    assume env: "env = Evaluator_initial_env"
    show "expr \<noteq> omega_term"
    proof
      assume e: "expr = omega_term"
      from "1"(2) e obtain f a
        where f: "ev' env delta_term = Some f" and a: "ev' env delta_term = Some a"
        and y: "(case f of
                   Abstraction var_name var_type body \<Rightarrow> ev' env (substitute body var_name a)
                 | _ \<Rightarrow> Some (apply_constant f a)) = Some y"
        by (auto simp add: omega_term_def split: Option.bind_splits)
      from "1"(1) [OF f] env have "f = delta_term" by simp
      moreover from "1"(1) [OF a] env have "a = delta_term" by simp
      ultimately have "ev' env omega_term = Some y"
        using y by (simp add: delta_term_def omega_term_def)
      from "1"(1) [OF this] env show False by simp
    qed
  qed
qed

lemma enhanced_env_x: "EnhancedEvaluator_env ''x'' = None"
  by (simp add: EnhancedEvaluator_env_def)

lemma enhanced_omega_invariant:
  assumes ev: "enhanced_evaluate expr = Some y"
  shows "(expr = EVariable ''x'' TRUTH \<longrightarrow> y = expr)
   \<and> (expr = EApplication (EVariable ''x'' TRUTH) (EVariable ''x'' TRUTH) \<longrightarrow> y = expr)
   \<and> (expr = enhanced_delta_term \<longrightarrow> y = enhanced_delta_term)
   \<and> expr \<noteq> enhanced_omega_term"
proof (rule enhanced_evaluate.raw_induct [where P = "\<lambda>expr y.
     (expr = EVariable ''x'' TRUTH \<longrightarrow> y = expr)
   \<and> (expr = EApplication (EVariable ''x'' TRUTH) (EVariable ''x'' TRUTH) \<longrightarrow> y = expr)
   \<and> (expr = enhanced_delta_term \<longrightarrow> y = enhanced_delta_term)
   \<and> expr \<noteq> enhanced_omega_term", OF _ ev], goal_cases)
  case (1 ev' expr y)
  let ?x = "EVariable ''x'' TRUTH"
  let ?xx = "EApplication ?x ?x"
  show ?case
  proof (intro impI conjI)
    assume e: "expr = ?x"
    show "y = expr" using "1"(2) e enhanced_env_x by simp
  next
    assume e: "expr = ?xx"
    from "1"(2) e obtain f a where f: "ev' ?x = Some f" and a: "ev' ?x = Some a"
      and y: "(case f of
                 EAbstraction var_name var_type body \<Rightarrow>
                   ev' (enhanced_substitute body var_name a)
               | _ \<Rightarrow> Some (enhanced_apply f a)) = Some y"
      by (auto split: Option.bind_splits)
    from "1"(1) [OF f] have "f = ?x" by simp
    moreover from "1"(1) [OF a] have "a = ?x" by simp
    ultimately show "y = expr" using y e by simp
  next
    assume e: "expr = enhanced_delta_term"
    from "1"(2) e obtain nb where nb: "ev' ?xx = Some nb"
      and y: "y = EAbstraction ''x'' TRUTH nb"
      by (auto simp add: enhanced_delta_term_def split: Option.bind_splits)
    from "1"(1) [OF nb] have "nb = ?xx" by simp
    with y show "y = enhanced_delta_term" by (simp add: enhanced_delta_term_def)
  next
    show "expr \<noteq> enhanced_omega_term"
    proof
      assume e: "expr = enhanced_omega_term"
      from "1"(2) e obtain f a
        where f: "ev' enhanced_delta_term = Some f" and a: "ev' enhanced_delta_term = Some a"
        and y: "(case f of
                   EAbstraction var_name var_type body \<Rightarrow>
                     ev' (enhanced_substitute body var_name a)
                 | _ \<Rightarrow> Some (enhanced_apply f a)) = Some y"
        by (auto simp add: enhanced_omega_term_def split: Option.bind_splits)
      from "1"(1) [OF f] have "f = enhanced_delta_term" by simp
      moreover from "1"(1) [OF a] have "a = enhanced_delta_term" by simp
      ultimately have "ev' enhanced_omega_term = Some y"
        using y by (simp add: enhanced_delta_term_def enhanced_omega_term_def)
      from "1"(1) [OF this] show False by simp
    qed
  qed
qed

text \<open>
  C4: evaluation either ends within the caller's fuel budget, returning a normal form,
  or fails with \<open>EvaluationTimeout\<close>, and never runs for an unbounded number of steps.
  Neither \<open>Evaluator.evaluate\<close> nor \<open>EnhancedEvaluator.evaluate\<close> takes a budget or counts
  its steps. A \<open>\<beta>\<close>-step that ends is carried out: \<open>(\<lambda>x. x) at\<close> evaluates to \<open>at\<close>. On
  \<open>(\<lambda>x. x x) (\<lambda>x. x x)\<close> the \<open>\<beta>\<close>-step reproduces the term, and both evaluators return no
  result.
\<close>

theorem C4_omega_returns_no_result:
  "evaluate Evaluator_initial_env
     (Application (Abstraction ''x'' TRUTH (Variable ''x'' TRUTH)) (Value ''at'' TRUTH))
     = Some (Value ''at'' TRUTH)
   \<and> evaluate Evaluator_initial_env omega_term = None
   \<and> enhanced_evaluate enhanced_omega_term = None"
proof (intro conjI)
  show "evaluate Evaluator_initial_env
     (Application (Abstraction ''x'' TRUTH (Variable ''x'' TRUTH)) (Value ''at'' TRUTH))
     = Some (Value ''at'' TRUTH)"
    by (simp add: evaluate.simps Evaluator_initial_env_def create_logical_connectives_def
        create_core_axioms_def Let_def)
  show "evaluate Evaluator_initial_env omega_term = None"
  proof (cases "evaluate Evaluator_initial_env omega_term")
    case (Some y)
    from omega_invariant [OF this] show ?thesis by simp
  qed simp
  show "enhanced_evaluate enhanced_omega_term = None"
  proof (cases "enhanced_evaluate enhanced_omega_term")
    case (Some y)
    from enhanced_omega_invariant [OF this] show ?thesis by simp
  qed simp
qed

section \<open>Properties of the k-d tree search\<close>

subsection \<open>The heap operations permute\<close>

lemma mset_hole_move:
  "pp < length h \<Longrightarrow> pos < length h \<Longrightarrow> mset (h[pos := h ! pp, pp := x]) = mset (h[pos := x])"
  by (cases "pp = pos") (simp_all add: mset_update nth_list_update_neq nth_mem_mset)

lemma siftdown_length: "length (siftdown heap startpos pos x) = length heap"
  by (induction heap startpos pos x rule: siftdown.induct)
     (subst siftdown.simps, simp add: Let_def)

lemma siftdown_mset:
  "pos < length heap \<Longrightarrow> mset (siftdown heap startpos pos x) = mset (heap[pos := x])"
proof (induction heap startpos pos x rule: siftdown.induct)
  case (1 heap startpos pos x)
  show ?case
  proof (cases "pos > startpos \<and> item_less x (heap ! ((pos - 1) div 2))")
    case True
    let ?pp = "(pos - 1) div 2"
    have pp: "?pp < length heap" using "1.prems" by simp
    have "mset (siftdown (heap[pos := heap ! ?pp]) startpos ?pp x)
        = mset (heap[pos := heap ! ?pp, ?pp := x])"
      using "1.IH" [OF _ refl refl] True pp by simp
    also have "\<dots> = mset (heap[pos := x])" using pp "1.prems" by (rule mset_hole_move)
    finally show ?thesis using True by (subst siftdown.simps) (simp add: Let_def)
  next
    case False
    then show ?thesis by (subst siftdown.simps) (auto simp add: Let_def)
  qed
qed

lemma siftup_loop_props:
  "siftup_loop heap pos = (heap', pos') \<Longrightarrow> pos < length heap \<Longrightarrow>
   pos' < length heap \<and> length heap' = length heap
   \<and> mset (heap'[pos' := x]) = mset (heap[pos := x])"
proof (induction heap pos arbitrary: heap' pos' rule: siftup_loop.induct)
  case (1 heap pos)
  let ?cp = "2 * pos + 1"
  show ?case
  proof (cases "?cp < length heap")
    case False
    then show ?thesis using "1.prems" by (subst (asm) siftup_loop.simps) (simp add: Let_def)
  next
    case True
    define cp' where "cp' = (if ?cp + 1 < length heap
                               \<and> \<not> item_less (heap ! ?cp) (heap ! (?cp + 1))
                            then ?cp + 1 else ?cp)"
    have cp': "cp' < length heap" using True by (simp add: cp'_def)
    have "siftup_loop heap pos = siftup_loop (heap[pos := heap ! cp']) cp'"
      by (subst siftup_loop.simps) (simp only: Let_def True if_True cp'_def)
    then have rec: "siftup_loop (heap[pos := heap ! cp']) cp' = (heap', pos')"
      using "1.prems"(1) by simp
    have "pos' < length (heap[pos := heap ! cp']) \<and> length heap' = length (heap[pos := heap ! cp'])
       \<and> mset (heap'[pos' := x]) = mset (heap[pos := heap ! cp', cp' := x])"
      using "1.IH" [OF refl True refl cp'_def rec] cp' by simp
    then show ?thesis using mset_hole_move [OF cp' "1.prems"(2), of x] by simp
  qed
qed

lemma siftup_mset: "pos < length heap \<Longrightarrow> mset (siftup heap pos) = mset heap"
proof -
  assume pos: "pos < length heap"
  obtain heap' pos' where lp: "siftup_loop heap pos = (heap', pos')"
    by (cases "siftup_loop heap pos")
  from siftup_loop_props [OF lp pos, of "heap ! pos"]
  have p: "pos' < length heap'" and m: "mset (heap'[pos' := heap ! pos]) = mset heap"
    by simp_all
  show ?thesis using lp p m by (simp add: siftup_def Let_def siftdown_mset)
qed

lemma heappush_mset: "mset (heappush heap item) = add_mset item (mset heap)"
  by (simp add: heappush_def siftdown_mset)

lemma heappush_length: "length (heappush heap item) = Suc (length heap)"
  by (simp add: heappush_def siftdown_length)

lemma heapreplace_mset:
  "heapreplace heap item = Inr heap' \<Longrightarrow>
   heap \<noteq> [] \<and> mset heap' = add_mset item (mset heap - {#heap ! 0#})"
  by (cases heap) (auto simp add: heapreplace_def siftup_mset)

lemma heapreplace_length:
  assumes "heapreplace heap item = Inr heap'"
  shows "length heap' = length heap"
proof -
  from heapreplace_mset [OF assms]
  have ne: "heap \<noteq> []" and m: "mset heap' = add_mset item (mset heap - {#heap ! 0#})"
    by simp_all
  from ne have "heap ! 0 \<in># mset heap" by (cases heap) simp_all
  then have "size (add_mset item (mset heap - {#heap ! 0#})) = size (mset heap)"
    by (simp add: size_Diff_singleton) (metis ne length_greater_0_conv Suc_pred size_mset)
  with m show ?thesis by (metis size_mset)
qed

lemma heapreplace_total: "heap \<noteq> [] \<Longrightarrow> \<exists>heap'. heapreplace heap item = Inr heap'"
  by (cases heap) (simp_all add: heapreplace_def)

lemma offer_props:
  assumes "offer nearest k item = Inr heap'"
  shows "mset heap' \<subseteq># add_mset item (mset nearest)"
    and "int (length heap') \<le> max (int (length nearest)) k"
proof -
  have "mset heap' \<subseteq># add_mset item (mset nearest)
      \<and> int (length heap') \<le> max (int (length nearest)) k"
  proof (cases "int (length nearest) < k")
    case True
    then show ?thesis using assms by (auto simp add: offer_def heappush_mset heappush_length)
  next
    case False
    then show ?thesis using assms
      by (auto simp add: offer_def heap_top_def getitem_def diff_subset_eq_self
          dest: heapreplace_mset heapreplace_length split: sum.splits if_splits)
  qed
  then show "mset heap' \<subseteq># add_mset item (mset nearest)"
    and "int (length heap') \<le> max (int (length nearest)) k" by auto
qed

lemma offer_total:
  "1 \<le> k \<Longrightarrow> \<exists>heap'. offer nearest k item = Inr heap'"
  by (cases nearest) (auto simp add: offer_def heap_top_def getitem_def heapreplace_def)

lemma search_second_total:
  "1 \<le> k \<Longrightarrow> \<exists>b. search_second nearest k diff = Inr b"
  by (cases nearest) (auto simp add: search_second_def heap_top_def getitem_def)

subsection \<open>Invariants of the search\<close>

lemma k_nearest_rec_step:
  assumes "k_nearest_rec self_k (KDNode nid npoint left right) point depth nearest k = Inr heap'"
  obtains nearest1 axis pa na nearest2 b where
    "offer nearest k (- dist_sq npoint point, nid) = Inr nearest1"
    "py_mod depth self_k = Inr axis"
    "getitem point axis = Inr pa" "getitem npoint axis = Inr na"
    "k_nearest_rec self_k (if pa - na < 0 then left else right) point (depth + 1) nearest1 k = Inr nearest2"
    "search_second nearest2 k (pa - na) = Inr b"
    "(if b then k_nearest_rec self_k (if pa - na < 0 then right else left) point (depth + 1) nearest2 k
              else Inr nearest2) = Inr heap'"
proof -
  from assms obtain nearest1 where
    off: "offer nearest k (- dist_sq npoint point, nid) = Inr nearest1"
    by (cases "offer nearest k (- dist_sq npoint point, nid)") simp_all
  from assms off obtain axis where ax: "py_mod depth self_k = Inr axis"
    by (cases "py_mod depth self_k") simp_all
  from assms off ax obtain pa where pa: "getitem point axis = Inr pa"
    by (cases "getitem point axis") simp_all
  from assms off ax pa obtain na where na: "getitem npoint axis = Inr na"
    by (cases "getitem npoint axis") simp_all
  let ?first = "if pa - na < 0 then left else right"
  let ?second = "if pa - na < 0 then right else left"
  from assms off ax pa na obtain nearest2 where
    r1: "k_nearest_rec self_k ?first point (depth + 1) nearest1 k = Inr nearest2"
    by (cases "k_nearest_rec self_k ?first point (depth + 1) nearest1 k")
       (simp_all add: Let_def)
  from assms off ax pa na r1 obtain b where ss: "search_second nearest2 k (pa - na) = Inr b"
    by (cases "search_second nearest2 k (pa - na)") (simp_all add: Let_def)
  from assms off ax pa na r1 ss
  have "(if b then k_nearest_rec self_k ?second point (depth + 1) nearest2 k
              else Inr nearest2) = Inr heap'"
    by (cases b) (simp_all add: Let_def)
  with off ax pa na r1 ss show ?thesis by (rule that)
qed

lemma k_nearest_rec_props:
  "k_nearest_rec self_k t point depth nearest k = Inr heap' \<Longrightarrow>
   mset heap' \<subseteq># mset nearest + mset (map (entry_item point) (kd_entries t))
   \<and> int (length heap') \<le> max (int (length nearest)) k"
proof (induction t arbitrary: depth nearest heap')
  case KDNone
  then show ?case by simp
next
  case (KDNode nid npoint left right)
  let ?item = "(- dist_sq npoint point, nid)"
  let ?E = "\<lambda>t. mset (map (entry_item point) (kd_entries t))"
  show ?case
  proof (rule k_nearest_rec_step [OF KDNode.prems])
  fix nearest1 axis pa na nearest2 b
  assume off: "offer nearest k ?item = Inr nearest1"
    and "py_mod depth self_k = Inr axis"
    and "getitem point axis = Inr pa" and "getitem npoint axis = Inr na"
    and r1: "k_nearest_rec self_k (if pa - na < 0 then left else right) point (depth + 1)
               nearest1 k = Inr nearest2"
    and "search_second nearest2 k (pa - na) = Inr b"
    and r2: "(if b then k_nearest_rec self_k (if pa - na < 0 then right else left) point
                          (depth + 1) nearest2 k
              else Inr nearest2) = Inr heap'"
  define first where "first = (if pa - na < 0 then left else right)"
  define second where "second = (if pa - na < 0 then right else left)"
  have both: "?E first + ?E second = ?E left + ?E right"
    by (simp add: first_def second_def)
  have IH1: "mset nearest2 \<subseteq># mset nearest1 + ?E first
      \<and> int (length nearest2) \<le> max (int (length nearest1)) k"
  proof (cases "pa - na < 0")
    case True
    with r1 KDNode.IH(1) show ?thesis by (simp add: first_def)
  next
    case False
    with r1 KDNode.IH(2) show ?thesis by (simp add: first_def)
  qed
  have IH2: "mset heap' \<subseteq># mset nearest2 + ?E second
      \<and> int (length heap') \<le> max (int (length nearest2)) k"
  proof (cases b)
    case False
    then show ?thesis using r2 by simp
  next
    case b: True
    show ?thesis
    proof (cases "pa - na < 0")
      case True
      with r2 b KDNode.IH(2) show ?thesis by (simp add: second_def)
    next
      case False
      with r2 b KDNode.IH(1) show ?thesis by (simp add: second_def)
    qed
  qed
  note o = offer_props [OF off]
  have "mset heap' \<subseteq># mset nearest2 + ?E second" using IH2 by simp
  also have "\<dots> \<subseteq># (mset nearest1 + ?E first) + ?E second"
    using IH1 by (simp add: subset_mset.add_right_mono del: image_mset_union)
  also have "\<dots> \<subseteq># (add_mset ?item (mset nearest) + ?E first) + ?E second"
    using o(1) by (simp add: subset_mset.add_right_mono del: image_mset_union)
  also have "\<dots> = mset nearest + (add_mset ?item (?E first + ?E second))"
    by (simp add: ac_simps)
  also have "\<dots> = mset nearest + ?E (KDNode nid npoint left right)"
    unfolding both by (simp add: entry_item_def)
  finally have sub: "mset heap' \<subseteq># mset nearest + ?E (KDNode nid npoint left right)" .
  have "int (length heap') \<le> max (int (length nearest)) k"
    using IH1 IH2 o(2) by linarith
  with sub show ?thesis by simp
  qed
qed

lemma k_nearest_rec_total:
  "0 < self_k \<Longrightarrow> self_k \<le> length point \<Longrightarrow>
   (\<forall>e \<in> set (kd_entries t). self_k \<le> length (snd e)) \<Longrightarrow> 1 \<le> k \<Longrightarrow>
   \<exists>heap'. k_nearest_rec self_k t point depth nearest k = Inr heap'"
proof (induction t arbitrary: depth nearest)
  case KDNone
  then show ?case by simp
next
  case (KDNode nid npoint left right)
  let ?axis = "depth mod self_k"
  have axis: "?axis < self_k" using KDNode.prems(1) by simp
  obtain nearest1 where off: "offer nearest k (- dist_sq npoint point, nid) = Inr nearest1"
    using offer_total [OF KDNode.prems(4)] by blast
  have ax: "py_mod depth self_k = Inr ?axis" using KDNode.prems(1) by (simp add: py_mod_def)
  have pa: "getitem point ?axis = Inr (point ! ?axis)"
    using axis KDNode.prems(2) by (simp add: getitem_def)
  have na: "getitem npoint ?axis = Inr (npoint ! ?axis)"
    using axis KDNode.prems(3) by (simp add: getitem_def)
  let ?diff = "point ! ?axis - npoint ! ?axis"
  have wl: "\<forall>e \<in> set (kd_entries left). self_k \<le> length (snd e)"
    and wr: "\<forall>e \<in> set (kd_entries right). self_k \<le> length (snd e)"
    using KDNode.prems(3) by auto
  note IHl = KDNode.IH(1) [OF KDNode.prems(1,2) wl KDNode.prems(4)]
  note IHr = KDNode.IH(2) [OF KDNode.prems(1,2) wr KDNode.prems(4)]
  obtain nearest2 where r1: "k_nearest_rec self_k (if ?diff < 0 then left else right) point
      (depth + 1) nearest1 k = Inr nearest2"
    using IHl [of "depth + 1" nearest1] IHr [of "depth + 1" nearest1] by (cases "?diff < 0") auto
  obtain b where ss: "search_second nearest2 k ?diff = Inr b"
    using search_second_total [OF KDNode.prems(4)] by blast
  obtain heap' where r2: "k_nearest_rec self_k (if ?diff < 0 then right else left) point
      (depth + 1) nearest2 k = Inr heap'"
    using IHl [of "depth + 1" nearest2] IHr [of "depth + 1" nearest2] by (cases "?diff < 0") auto
  show ?case using off ax pa na r1 ss r2 by (cases b) (simp_all add: Let_def)
qed

lemma k_nearest_neighbors_props:
  assumes "k_nearest_neighbors self point k = Inr r"
  shows "sorted (map snd r)"
    and "int (length r) \<le> max 0 k"
    and "mset r \<subseteq># mset (map (entry_distance point) (kd_entries (tree_root self)))"
proof -
  let ?f = "\<lambda>(neg_dist_sq, nid). (nid, sqrt (- neg_dist_sq))"
  show "sorted (map snd r)" "int (length r) \<le> max 0 k"
    "mset r \<subseteq># mset (map (entry_distance point) (kd_entries (tree_root self)))"
  proof (atomize (full), cases "tree_root self")
    case KDNone
    with assms show "sorted (map snd r) \<and> int (length r) \<le> max 0 k \<and>
      mset r \<subseteq># mset (map (entry_distance point) (kd_entries (tree_root self)))"
      by (simp add: k_nearest_neighbors_def)
  next
    case (KDNode nid npoint left right)
    with assms obtain nearest where
      rec: "k_nearest_rec (tree_k self) (tree_root self) point 0 [] k = Inr nearest"
      and r: "r = sort_key snd (map ?f nearest)"
      by (auto simp add: k_nearest_neighbors_def split: sum.splits)
    from k_nearest_rec_props [OF rec]
    have sub: "mset nearest \<subseteq># mset (map (entry_item point) (kd_entries (tree_root self)))"
      and len: "int (length nearest) \<le> max 0 k" by simp_all
    have "mset r = image_mset ?f (mset nearest)" by (simp add: r)
    also have "\<dots> \<subseteq># image_mset ?f (mset (map (entry_item point) (kd_entries (tree_root self))))"
      using sub by (rule image_mset_subseteq_mono)
    also have "\<dots> = mset (map (entry_distance point) (kd_entries (tree_root self)))"
    proof -
      have "?f \<circ> entry_item point = entry_distance point"
        by (simp add: fun_eq_iff entry_item_def entry_distance_def)
      then show ?thesis by (simp add: multiset.map_comp flip: mset_map)
    qed
    finally have "mset r \<subseteq># mset (map (entry_distance point) (kd_entries (tree_root self)))" .
    moreover have "sorted (map snd r)" by (simp add: r)
    moreover have "int (length r) \<le> max 0 k" using len by (simp add: r)
    ultimately show "sorted (map snd r) \<and> int (length r) \<le> max 0 k \<and>
      mset r \<subseteq># mset (map (entry_distance point) (kd_entries (tree_root self)))" by simp
  qed
qed

lemma k_nearest_neighbors_total:
  "0 < tree_k self \<Longrightarrow> tree_k self \<le> length point \<Longrightarrow>
   (\<forall>e \<in> set (kd_entries (tree_root self)). tree_k self \<le> length (snd e)) \<Longrightarrow> 1 \<le> k \<Longrightarrow>
   \<exists>r. k_nearest_neighbors self point k = Inr r"
  using k_nearest_rec_total [of "tree_k self" point "tree_root self" k 0 "[]"]
  by (cases "tree_root self") (auto simp add: k_nearest_neighbors_def)

lemma mset_subset_distinct:
  assumes "mset xs \<subseteq># mset ys" "distinct ys"
  shows "distinct xs"
proof -
  have "count (mset xs) a = (if a \<in> set xs then 1 else 0)" for a
  proof (cases "a \<in> set xs")
    case True
    then have pos: "0 < count (mset xs) a" by simp
    have le: "count (mset xs) a \<le> count (mset ys) a"
      using assms(1) by (rule mset_subset_eq_count)
    have "count (mset ys) a \<le> 1"
      using assms(2) by (simp add: distinct_count_atmost_1)
    with pos le have "count (mset xs) a = 1" by linarith
    then show ?thesis using True by simp
  next
    case False
    then show ?thesis by (simp add: count_eq_zero_iff)
  qed
  then show ?thesis by (simp add: distinct_count_atmost_1)
qed

lemma k_nearest_neighbors_ids:
  assumes "k_nearest_neighbors self point k = Inr r"
    and "distinct (map fst (kd_entries (tree_root self)))"
  shows "distinct (map fst r)"
proof -
  have "mset r \<subseteq># mset (map (entry_distance point) (kd_entries (tree_root self)))"
    using assms(1) by (rule k_nearest_neighbors_props)
  then have "image_mset fst (mset r)
      \<subseteq># image_mset fst (mset (map (entry_distance point) (kd_entries (tree_root self))))"
    by (rule image_mset_subseteq_mono)
  moreover have "fst \<circ> entry_distance point = fst"
    by (simp add: fun_eq_iff entry_distance_def)
  ultimately have "mset (map fst r) \<subseteq># mset (map fst (kd_entries (tree_root self)))"
    by (simp add: multiset.map_comp flip: mset_map)
  then show ?thesis using assms(2) by (rule mset_subset_distinct)
qed

lemma tree_wf_total:
  assumes "tree_wf self" "tree_k self \<le> length point" "1 \<le> k"
  shows "\<exists>r. k_nearest_neighbors self point k = Inr r"
proof (rule k_nearest_neighbors_total)
  show "0 < tree_k self" using assms(1) by (simp add: tree_wf_def)
  show "tree_k self \<le> length point" by (rule assms(2))
  show "\<forall>e\<in>set (kd_entries (tree_root self)). tree_k self \<le> length (snd e)"
    using assms(1) by (simp add: tree_wf_def list_all_iff)
  show "1 \<le> k" by (rule assms(3))
qed

subsection \<open>The number of neighbours found\<close>

lemma offer_length:
  "offer nearest k item = Inr heap' \<Longrightarrow>
   int (length heap') = (if int (length nearest) < k then int (length nearest) + 1
                         else int (length nearest))"
  by (auto simp add: offer_def heappush_length heap_top_def getitem_def
      dest: heapreplace_length split: sum.splits if_splits)

lemma search_second_short:
  "search_second nearest k diff = Inr b \<Longrightarrow> int (length nearest) < k \<Longrightarrow> b"
  by (simp add: search_second_def)

lemma k_nearest_rec_length:
  "k_nearest_rec self_k t point depth nearest k = Inr heap' \<Longrightarrow>
   int (length nearest) \<le> k \<Longrightarrow>
   int (length heap') = min k (int (length nearest) + int (length (kd_entries t)))"
proof (induction t arbitrary: depth nearest heap')
  case KDNone
  then show ?case by simp
next
  case (KDNode nid npoint left right)
  show ?case
  proof (rule k_nearest_rec_step [OF KDNode.prems(1)])
    fix nearest1 axis pa na nearest2 b
    assume off: "offer nearest k (- dist_sq npoint point, nid) = Inr nearest1"
      and "py_mod depth self_k = Inr axis"
      and "getitem point axis = Inr pa" and "getitem npoint axis = Inr na"
      and r1: "k_nearest_rec self_k (if pa - na < 0 then left else right) point (depth + 1)
                 nearest1 k = Inr nearest2"
      and ss: "search_second nearest2 k (pa - na) = Inr b"
      and r2: "(if b then k_nearest_rec self_k (if pa - na < 0 then right else left) point
                            (depth + 1) nearest2 k
                else Inr nearest2) = Inr heap'"
    define first where "first = (if pa - na < 0 then left else right)"
    define second where "second = (if pa - na < 0 then right else left)"
    have sizes: "int (length (kd_entries first)) + int (length (kd_entries second))
        = int (length (kd_entries left)) + int (length (kd_entries right))"
      by (simp add: first_def second_def)
    have l1: "int (length nearest1) = min k (int (length nearest) + 1)"
      using offer_length [OF off] KDNode.prems(2) by (simp add: min_def)
    then have b1: "int (length nearest1) \<le> k" by simp
    have l2: "int (length nearest2) = min k (int (length nearest1) + int (length (kd_entries first)))"
    proof (cases "pa - na < 0")
      case True
      with r1 KDNode.IH(1) b1 show ?thesis by (simp add: first_def)
    next
      case False
      with r1 KDNode.IH(2) b1 show ?thesis by (simp add: first_def)
    qed
    then have b2: "int (length nearest2) \<le> k" by simp
    have l3: "int (length heap') = min k (int (length nearest2) + int (length (kd_entries second)))"
    proof (cases b)
      case True
      show ?thesis
      proof (cases "pa - na < 0")
        case lt: True
        with r2 True KDNode.IH(2) b2 show ?thesis by (simp add: second_def)
      next
        case ge: False
        with r2 True KDNode.IH(1) b2 show ?thesis by (simp add: second_def)
      qed
    next
      case False
      with search_second_short [OF ss] have "\<not> int (length nearest2) < k" by blast
      with b2 have "int (length nearest2) = k" by simp
      with False r2 show ?thesis by simp
    qed
    have "int (length heap')
        = min k (int (length nearest) + 1 + (int (length (kd_entries first))
                                              + int (length (kd_entries second))))"
      using l1 l2 l3 by (simp add: min_def)
    then show ?thesis using sizes by simp
  qed
qed

lemma k_nearest_neighbors_length:
  assumes "k_nearest_neighbors self point k = Inr r" "0 \<le> k"
  shows "int (length r) = min k (int (length (kd_entries (tree_root self))))"
proof (cases "tree_root self")
  case KDNone
  with assms show ?thesis by (simp add: k_nearest_neighbors_def)
next
  case (KDNode nid npoint left right)
  with assms(1) obtain nearest where
    rec: "k_nearest_rec (tree_k self) (tree_root self) point 0 [] k = Inr nearest"
    and r: "length r = length nearest"
    by (auto simp add: k_nearest_neighbors_def split: sum.splits)
  from k_nearest_rec_length [OF rec] assms(2) r show ?thesis by simp
qed

section \<open>Properties of the knowledge store\<close>

subsection \<open>The indices stay well formed\<close>

text \<open>
  A store as \<open>__init__\<close> builds it has well-formed indices, and \<open>store_node\<close> raises no
  exception on such a store and keeps them well formed.
\<close>

lemma insert_node_entries:
  "0 < self_k \<Longrightarrow> self_k \<le> length point \<Longrightarrow>
   list_all (\<lambda>e. length (snd e) = self_k) (kd_entries t) \<Longrightarrow>
   \<exists>t'. insert_node self_k t nid point depth = Inr t'
        \<and> mset (kd_entries t') = add_mset (nid, point) (mset (kd_entries t))"
proof (induction t arbitrary: depth)
  case KDNone
  then show ?case by simp
next
  case (KDNode n npoint left right)
  let ?axis = "depth mod self_k"
  have axis: "?axis < self_k" using KDNode.prems(1) by simp
  have ax: "py_mod depth self_k = Inr ?axis" using KDNode.prems(1) by (simp add: py_mod_def)
  have pa: "getitem point ?axis = Inr (point ! ?axis)"
    using axis KDNode.prems(2) by (simp add: getitem_def)
  have na: "getitem npoint ?axis = Inr (npoint ! ?axis)"
    using axis KDNode.prems(3) by (simp add: getitem_def)
  have wl: "list_all (\<lambda>e. length (snd e) = self_k) (kd_entries left)"
    and wr: "list_all (\<lambda>e. length (snd e) = self_k) (kd_entries right)"
    using KDNode.prems(3) by simp_all
  obtain l' where l': "insert_node self_k left nid point (depth + 1) = Inr l'"
      "mset (kd_entries l') = add_mset (nid, point) (mset (kd_entries left))"
    using KDNode.IH(1) [OF KDNode.prems(1,2) wl] by blast
  obtain r' where r': "insert_node self_k right nid point (depth + 1) = Inr r'"
      "mset (kd_entries r') = add_mset (nid, point) (mset (kd_entries right))"
    using KDNode.IH(2) [OF KDNode.prems(1,2) wr] by blast
  show ?case using ax pa na l' r' by (cases "point ! ?axis < npoint ! ?axis") simp_all
qed

lemma KDTree_insert_wf:
  assumes "tree_wf self" "length point = tree_k self"
  shows "\<exists>tr. KDTree_insert self nid point = Inr tr \<and> tree_wf tr \<and> tree_k tr = tree_k self"
proof -
  have k: "0 < tree_k self"
    and es: "list_all (\<lambda>e. length (snd e) = tree_k self) (kd_entries (tree_root self))"
    using assms(1) by (simp_all add: tree_wf_def)
  obtain t' where t': "insert_node (tree_k self) (tree_root self) nid point 0 = Inr t'"
      "mset (kd_entries t') = add_mset (nid, point) (mset (kd_entries (tree_root self)))"
    using insert_node_entries [OF k _ es, of point nid 0] assms(2) by auto
  have "set (kd_entries t') = insert (nid, point) (set (kd_entries (tree_root self)))"
    using t'(2) by (metis set_mset_add_mset_insert set_mset_mset)
  then have "list_all (\<lambda>e. length (snd e) = tree_k self) (kd_entries t')"
    using es assms(2) by (simp add: list_all_iff)
  then show ?thesis using t'(1) k by (simp add: KDTree_insert_def tree_wf_def)
qed

lemma store_node_wf:
  assumes "indices_wf self"
  shows "\<exists>s'. store_node self node = Inr s' \<and> indices_wf s'"
proof -
  have tw: "tree_wf (trinity_index self)" and tk: "tree_k (trinity_index self) = 3"
    and cw: "tree_wf (complex_index self)" and ck: "tree_k (complex_index self) = 2"
    using assms by (simp_all add: indices_wf_def)
  have "length (trinity_point node) = tree_k (trinity_index self)"
    using tk by (simp add: trinity_point_def split: prod.splits)
  from KDTree_insert_wf [OF tw this, of "node_id node"] obtain ti where
    ti: "KDTree_insert (trinity_index self) (node_id node) (trinity_point node) = Inr ti"
      "tree_wf ti" "tree_k ti = 3" using tk by auto
  have "length (complex_point node) = tree_k (complex_index self)"
    using ck by (simp add: complex_point_def)
  from KDTree_insert_wf [OF cw this, of "node_id node"] obtain ci where
    ci: "KDTree_insert (complex_index self) (node_id node) (complex_point node) = Inr ci"
      "tree_wf ci" "tree_k ci = 2" using ck by auto
  show ?thesis using ti ci
    by (cases "active_conn (self\<lparr>nodes := AList.update (node_id node) node (nodes self),
                 trinity_index := ti, complex_index := ci\<rparr>)")
       (simp_all add: store_node_def Let_def indices_wf_def)
qed

lemma load_indices_wf:
  "tree_wf ti \<Longrightarrow> tree_k ti = 3 \<Longrightarrow> tree_wf ci \<Longrightarrow> tree_k ci = 2 \<Longrightarrow>
   \<exists>ti' ci'. load_indices rows (ti, ci) = Inr (ti', ci')
     \<and> tree_wf ti' \<and> tree_k ti' = 3 \<and> tree_wf ci' \<and> tree_k ci' = 2"
proof (induction rows arbitrary: ti ci)
  case Nil
  then show ?case by simp
next
  case (Cons row rows)
  obtain nid node where row: "row = (nid, node)" by (cases row)
  have "length (trinity_point node) = tree_k ti"
    using Cons.prems(2) by (simp add: trinity_point_def split: prod.splits)
  from KDTree_insert_wf [OF Cons.prems(1) this, of nid] obtain ti1 where
    ti1: "KDTree_insert ti nid (trinity_point node) = Inr ti1" "tree_wf ti1" "tree_k ti1 = 3"
    using Cons.prems(2) by auto
  have "length (complex_point node) = tree_k ci"
    using Cons.prems(4) by (simp add: complex_point_def)
  from KDTree_insert_wf [OF Cons.prems(3) this, of nid] obtain ci1 where
    ci1: "KDTree_insert ci nid (complex_point node) = Inr ci1" "tree_wf ci1" "tree_k ci1 = 2"
    using Cons.prems(4) by auto
  from Cons.IH [OF ti1(2,3) ci1(2,3)] show ?case using row ti1(1) ci1(1) by simp
qed

lemma init_wf:
  "\<exists>s. FractalKnowledgeStore_init cfg_cs cfg_pe db = Inr s \<and> indices_wf s \<and> nodes s = []
     \<and> cache_size s = (case cfg_cs of Some n \<Rightarrow> n | None \<Rightarrow> 1000)"
proof -
  have e3: "tree_wf (new_KDTree 3)" "tree_k (new_KDTree 3) = 3"
    and e2: "tree_wf (new_KDTree 2)" "tree_k (new_KDTree 2) = 2"
    by (simp_all add: new_KDTree_def tree_wf_def)
  define cn where "cn = (if (case cfg_pe of Some b \<Rightarrow> b | None \<Rightarrow> True) then db else None)"
  obtain ti ci where
    l: "load_indices (case cn of Some d \<Rightarrow> nodes_table d | None \<Rightarrow> [])
          (new_KDTree 3, new_KDTree 2) = Inr (ti, ci)"
    and w: "tree_wf ti" "tree_k ti = 3" "tree_wf ci" "tree_k ci = 2"
    using load_indices_wf [OF e3 e2] by blast
  show ?thesis using l w
    by (simp add: FractalKnowledgeStore_init_def Let_def indices_wf_def cn_def)
qed

subsection \<open>Evaluating sessions\<close>

lemmas session_defs = bind_result_def FractalKnowledgeStore_init_def store_node_def
  KDTree_insert_def new_KDTree_def active_conn_def trinity_point_def complex_point_def
  py_mod_def getitem_def node_A_def node_B_def node_P_def node_P_moved_def
  insert_or_replace_node_def empty_database_def Let_def

lemmas search_defs = find_nearest_by_trinity_def find_nearest_by_position_def
  k_nearest_neighbors_def offer_def heappush_def siftdown.simps dist_sq_def
  search_second_def heap_top_def

subsection \<open>C9: nearest-neighbour queries\<close>

text \<open>
  C9, as stated, has the service-level queries deduplicate the search result by node id.
  \<open>find_nearest_by_trinity\<close> returns what the tree search returns. When a node is stored,
  its coordinates change and it is stored again, the tree holds the id at two places,
  and a query for two neighbours returns the id twice.
\<close>

theorem C9_duplicate_id_counterexample:
  "bind_result session_moved (\<lambda>s. find_nearest_by_trinity s (0, 1/2, 1/2) 2)
     = Inr [(''P'', 0), (''P'', 1)]"
  by (simp add: session_moved_def session_defs search_defs)

text \<open>
  C9, amended: for every query point and every \<open>k\<close>, \<open>find_nearest_by_trinity\<close> and
  \<open>find_nearest_by_position\<close> return the result of the k-d tree search for
  \<open>max(1, k)\<close> neighbours unchanged, without deduplication. When the search returns, its
  result is sorted ascending by distance and has exactly as many pairs as there are
  entries in the tree, but no more than \<open>max(1, k)\<close>; each pair is the id of an entry of
  the tree with that entry's distance to the query, no entry of the tree being used more
  often than it occurs in the tree. So an id inserted at several places of the tree can
  appear several times, and an id appears at most once in the result when all ids in
  the tree are distinct. When both indices are well formed, the queries raise no
  exception.
\<close>

theorem C9_nearest_sorted_without_deduplication:
  "find_nearest_by_trinity self (e, g, t) k
     = k_nearest_neighbors (trinity_index self) [e, g, t] (max 1 k)
   \<and> find_nearest_by_position self z k
     = k_nearest_neighbors (complex_index self) [Re z, Im z] (max 1 k)
   \<and> (\<forall>r. find_nearest_by_trinity self (e, g, t) k = Inr r \<longrightarrow>
       sorted (map snd r)
       \<and> int (length r)
           = min (max 1 k) (int (length (kd_entries (tree_root (trinity_index self)))))
       \<and> mset r \<subseteq># mset (map (entry_distance [e, g, t])
                           (kd_entries (tree_root (trinity_index self))))
       \<and> (distinct (map fst (kd_entries (tree_root (trinity_index self))))
            \<longrightarrow> distinct (map fst r)))
   \<and> (\<forall>r. find_nearest_by_position self z k = Inr r \<longrightarrow>
       sorted (map snd r)
       \<and> int (length r)
           = min (max 1 k) (int (length (kd_entries (tree_root (complex_index self)))))
       \<and> mset r \<subseteq># mset (map (entry_distance [Re z, Im z])
                           (kd_entries (tree_root (complex_index self))))
       \<and> (distinct (map fst (kd_entries (tree_root (complex_index self))))
            \<longrightarrow> distinct (map fst r)))
   \<and> (indices_wf self \<longrightarrow>
        (\<exists>r. find_nearest_by_trinity self (e, g, t) k = Inr r)
        \<and> (\<exists>r. find_nearest_by_position self z k = Inr r))"
proof (intro conjI allI impI)
  show "find_nearest_by_trinity self (e, g, t) k
      = k_nearest_neighbors (trinity_index self) [e, g, t] (max 1 k)"
    by (simp add: find_nearest_by_trinity_def)
  show "find_nearest_by_position self z k
      = k_nearest_neighbors (complex_index self) [Re z, Im z] (max 1 k)"
    by (simp add: find_nearest_by_position_def)
next
  fix r assume r: "find_nearest_by_trinity self (e, g, t) k = Inr r"
  then have kn: "k_nearest_neighbors (trinity_index self) [e, g, t] (max 1 k) = Inr r"
    by (simp add: find_nearest_by_trinity_def)
  show "sorted (map snd r)" using kn by (rule k_nearest_neighbors_props)
  show "int (length r)
      = min (max 1 k) (int (length (kd_entries (tree_root (trinity_index self)))))"
    using kn by (rule k_nearest_neighbors_length) simp
  show "mset r \<subseteq># mset (map (entry_distance [e, g, t])
                           (kd_entries (tree_root (trinity_index self))))"
    using kn by (rule k_nearest_neighbors_props)
  show "distinct (map fst r)"
    if "distinct (map fst (kd_entries (tree_root (trinity_index self))))"
    using kn that by (rule k_nearest_neighbors_ids)
next
  fix r assume r: "find_nearest_by_position self z k = Inr r"
  then have kn: "k_nearest_neighbors (complex_index self) [Re z, Im z] (max 1 k) = Inr r"
    by (simp add: find_nearest_by_position_def)
  show "sorted (map snd r)" using kn by (rule k_nearest_neighbors_props)
  show "int (length r)
      = min (max 1 k) (int (length (kd_entries (tree_root (complex_index self)))))"
    using kn by (rule k_nearest_neighbors_length) simp
  show "mset r \<subseteq># mset (map (entry_distance [Re z, Im z])
                           (kd_entries (tree_root (complex_index self))))"
    using kn by (rule k_nearest_neighbors_props)
  show "distinct (map fst r)"
    if "distinct (map fst (kd_entries (tree_root (complex_index self))))"
    using kn that by (rule k_nearest_neighbors_ids)
next
  assume wf: "indices_wf self"
  show "\<exists>r. find_nearest_by_trinity self (e, g, t) k = Inr r"
    using tree_wf_total [of "trinity_index self" "[e, g, t]" "max 1 k"] wf
    by (simp add: find_nearest_by_trinity_def indices_wf_def)
  show "\<exists>r. find_nearest_by_position self z k = Inr r"
    using tree_wf_total [of "complex_index self" "[Re z, Im z]" "max 1 k"] wf
    by (simp add: find_nearest_by_position_def indices_wf_def)
qed

text \<open>
  In the store holding \<open>node_A\<close> and \<open>node_B\<close>, the two nearest neighbours of the trinity
  vector of \<open>node_A\<close> are \<open>A\<close> and then \<open>B\<close>.
\<close>

theorem C9_nearest_sorted_without_deduplication_witness:
  "\<exists>s r r'. session_small_cache = Inr s
     \<and> find_nearest_by_trinity s (8/10, 7/10, 9/10) 2 = Inr r
     \<and> length r = 2 \<and> map fst r = [''A'', ''B'']
     \<and> sorted (map snd r) \<and> distinct (map fst r)
     \<and> find_nearest_by_position s 0 2 = Inr r' \<and> length r' = 2 \<and> sorted (map snd r')"
proof -
  obtain s where s: "session_small_cache = Inr s" and wf: "indices_wf s"
    and d: "distinct (map fst (kd_entries (tree_root (trinity_index s))))"
    and n: "length (kd_entries (tree_root (trinity_index s))) = 2"
           "length (kd_entries (tree_root (complex_index s))) = 2"
    and ids: "map fst (case find_nearest_by_trinity s (8/10, 7/10, 9/10) 2 of
                         Inr r \<Rightarrow> r | Inl e \<Rightarrow> []) = [''A'', ''B'']"
    by (simp add: session_small_cache_def session_defs indices_wf_def tree_wf_def
        search_defs)
  note inst = C9_nearest_sorted_without_deduplication [of s "8/10" "7/10" "9/10" 2 0]
  from inst wf obtain r where r: "find_nearest_by_trinity s (8/10, 7/10, 9/10) 2 = Inr r"
    by blast
  from inst r d n have p: "sorted (map snd r) \<and> distinct (map fst r) \<and> length r = 2"
    by auto
  from ids r have i: "map fst r = [''A'', ''B'']" by simp
  from inst wf obtain r' where r': "find_nearest_by_position s 0 2 = Inr r'" by blast
  from inst r' n have "sorted (map snd r') \<and> length r' = 2" by auto
  with s r p i r' show ?thesis by (intro exI [of _ s] exI [of _ r] exI [of _ r']) simp
qed

subsection \<open>C8: the node cache\<close>

text \<open>
  C8: the node cache holds at most \<open>cache_size\<close> entries (default 1000), evicting the
  least recently accessed entry when full. The default is read from the configuration,
  but nothing evicts: with \<open>cache_size = 1\<close>, storing two nodes leaves two entries in
  the cache, and so does loading two nodes from the database through \<open>get_node\<close>. The
  cache has no access ticks.
\<close>

theorem C8_cache_exceeds_cache_size:
  "(\<exists>s. FractalKnowledgeStore_init None None None = Inr s \<and> cache_size s = 1000)
   \<and> (\<exists>s. session_small_cache = Inr s \<and> cache_size s = 1 \<and> map fst (nodes s) = [''A'', ''B''])
   \<and> (\<exists>s. reopen session_entails_twice (Some 1) = Inr s \<and> cache_size s = 1 \<and> nodes s = []
        \<and> map fst (nodes (snd (get_node (snd (get_node s ''A'')) ''B''))) = [''A'', ''B''])"
  by (simp add: session_small_cache_def session_entails_twice_def reopen_def session_defs
      get_node_def load_node_from_db_def add_relation_def insert_or_replace_relation_def
      upsert_relationship_def add_relationship_def)

subsection \<open>C7: relations\<close>

text \<open>
  C7: relations are upserted by the key \<open>(source_id, kind, target_id)\<close>, so that the store
  holds exactly one relation for a key after any number of \<open>add_relation\<close> calls. The
  cached source node is updated in this way, but every call writes a relation row under
  a fresh row id: after two identical calls the relations table holds two rows for the
  key. Within the session \<open>get_relations\<close> hides the second row; a session opened later
  on the same database rebuilds the relationships of the node from the rows and returns
  two relations for the key.
\<close>

theorem C7_relation_rows_duplicated:
  "\<exists>s db s'. session_entails_twice = Inr s \<and> conn s = Some db
     \<and> map (\<lambda>r. (row_id r, row_source_id r, row_relation_type r, row_target_id r))
          (relations_table db)
        = [(''A_entails_B_0a1b'', ''A'', ''entails'', ''B''),
           (''A_entails_B_c2d3'', ''A'', ''entails'', ''B'')]
     \<and> map (\<lambda>x. (source_id x, relation_type x, target_id x))
          (fst (get_relations s ''A'' (Some ''entails'') ''outgoing''))
        = [(''A'', ''entails'', ''B'')]
     \<and> reopen session_entails_twice None = Inr s'
     \<and> map (\<lambda>x. (source_id x, relation_type x, target_id x))
          (fst (get_relations s' ''A'' (Some ''entails'') ''outgoing''))
        = [(''A'', ''entails'', ''B''), (''A'', ''entails'', ''B'')]"
  by (simp add: session_entails_twice_def reopen_def session_defs
      get_node_def load_node_from_db_def add_relation_def insert_or_replace_relation_def
      upsert_relationship_def add_relationship_def get_relations_def from_cache_def)

end
